theory Spec2Isabelle
  imports
    Main
    "HOL-Library.List_Lexorder"
    "HOL-Library.Option_ord"
begin

unbundle bit_operations_syntax

section \<open>Python strings\<close>

text \<open>
  A Python \<^verbatim>\<open>str\<close> is the list of its Unicode code points, each a natural
  number: \<^verbatim>\<open>len\<close>, indexing and slicing count code points.  \<open>S\<close> writes an ASCII
  literal.  The helpers below are the string methods the scraper and the adapter
  call: \<^verbatim>\<open>str.lower\<close>, \<^verbatim>\<open>str.strip\<close>, \<^verbatim>\<open>str.startswith\<close>, the substring test
  \<^verbatim>\<open>sub in s\<close>, \<^verbatim>\<open>str.split\<close> and \<^verbatim>\<open>str(n)\<close>.
\<close>

type_synonym pystr = "nat list"

abbreviation S :: "string \<Rightarrow> pystr" where
  "S s \<equiv> map of_char s"

abbreviation cp :: "char \<Rightarrow> nat" where
  "cp c \<equiv> of_char c"

text \<open>
  \<^verbatim>\<open>str.isspace\<close> on one code point, the characters \<^verbatim>\<open>str.strip()\<close> removes and
  the regular expression \<^verbatim>\<open>\s\<close> matches: the ASCII controls TAB to CR and FS to
  US, the space, NEL, the no-break space, and the Unicode spaces and line
  separators.
\<close>

definition py_isspace :: "nat \<Rightarrow> bool" where
  "py_isspace c =
     ((0x09 \<le> c \<and> c \<le> 0x0D) \<or> (0x1C \<le> c \<and> c \<le> 0x20)
      \<or> c \<in> set [0x85, 0xA0, 0x1680]
      \<or> (0x2000 \<le> c \<and> c \<le> 0x200A)
      \<or> c \<in> set [0x2028, 0x2029, 0x202F, 0x205F, 0x3000])"

text \<open>
  \<^verbatim>\<open>str.lower()\<close> replaces every character by its lower-case mapping, one to
  three code points long; for the capital sigma the mapping depends on the
  characters around it.  On ASCII the mapping is fixed: \<^verbatim>\<open>A\<close> to \<^verbatim>\<open>Z\<close> go to
  \<^verbatim>\<open>a\<close> to \<^verbatim>\<open>z\<close>, every other ASCII character stays.  For the other code points
  it is the table of the interpreter's Unicode database, which is a parameter
  here: \<open>lo before c after\<close> is the mapping of the code point \<open>c\<close> that stands
  between \<open>before\<close> (nearest character first) and \<open>after\<close>.
\<close>

type_synonym lower_table = "pystr \<Rightarrow> nat \<Rightarrow> pystr \<Rightarrow> pystr"

definition ascii_lower :: "nat \<Rightarrow> nat" where
  "ascii_lower c = (if 65 \<le> c \<and> c \<le> 90 then c + 32 else c)"

fun lower_from :: "lower_table \<Rightarrow> pystr \<Rightarrow> pystr \<Rightarrow> pystr" where
  "lower_from lo before [] = []"
| "lower_from lo before (c # after) =
     (if c < 128 then [ascii_lower c] else lo before c after)
       @ lower_from lo (c # before) after"

definition py_lower :: "lower_table \<Rightarrow> pystr \<Rightarrow> pystr" where
  "py_lower lo s = lower_from lo [] s"

text \<open>\<^verbatim>\<open>s.strip()\<close>: the whitespace at both ends removed.\<close>

definition py_strip :: "pystr \<Rightarrow> pystr" where
  "py_strip s = rev (dropWhile py_isspace (rev (dropWhile py_isspace s)))"

definition startswith :: "pystr \<Rightarrow> pystr \<Rightarrow> bool" where
  "startswith s p = (take (length p) s = p)"

text \<open>\<^verbatim>\<open>sub in s\<close>: some suffix of \<open>s\<close> starts with \<open>sub\<close>.\<close>

fun py_in :: "pystr \<Rightarrow> pystr \<Rightarrow> bool" where
  "py_in sub [] = (sub = [])"
| "py_in sub (c # cs) = (startswith (c # cs) sub \<or> py_in sub cs)"

text \<open>
  \<^verbatim>\<open>s.split(sep)\<close> for a non-empty separator (Python raises ValueError on the
  empty one; the scraper only splits on \<^verbatim>\<open>'|'\<close>, \<^verbatim>\<open>'id='\<close> and \<^verbatim>\<open>'&'\<close>).
\<close>

fun split_aux :: "pystr \<Rightarrow> pystr \<Rightarrow> pystr \<Rightarrow> pystr list" where
  "split_aux sep acc [] = [rev acc]"
| "split_aux sep acc (c # cs) =
     (if startswith (c # cs) sep
      then rev acc # split_aux sep [] (drop (length sep - 1) cs)
      else split_aux sep (c # acc) cs)"

definition py_split :: "pystr \<Rightarrow> pystr \<Rightarrow> pystr list" where
  "py_split s sep = split_aux sep [] s"

definition digit_char :: "nat \<Rightarrow> nat" where
  "digit_char d = S ''0123456789'' ! d"

text \<open>\<^verbatim>\<open>str(n)\<close> for a natural number.\<close>

function str_nat :: "nat \<Rightarrow> pystr" where
  "str_nat n = (if n < 10 then [digit_char n] else str_nat (n div 10) @ [digit_char (n mod 10)])"
  by pat_completeness auto
termination
  by (relation "measure id") auto

declare str_nat.simps [simp del]

text \<open>\<^verbatim>\<open>'%0*d' % (w, n)\<close>: decimal, left-padded with zeros to width \<open>w\<close>.\<close>

definition zpad :: "nat \<Rightarrow> nat \<Rightarrow> pystr" where
  "zpad w n = replicate (w - length (str_nat n)) (cp (CHR ''0'')) @ str_nat n"

text \<open>Python truthiness of an optional string: absent and empty are both false.\<close>

definition truthy :: "pystr option \<Rightarrow> bool" where
  "truthy v = (case v of None \<Rightarrow> False | Some s \<Rightarrow> s \<noteq> [])"

text \<open>\<^verbatim>\<open>d.get(key, '')\<close> on a key that, when present, holds a string.\<close>

definition get_str :: "pystr option \<Rightarrow> pystr" where
  "get_str v = (case v of None \<Rightarrow> [] | Some s \<Rightarrow> s)"

section \<open>Candidates and the tournaments table\<close>

text \<open>
  A candidate is the dict \<^verbatim>\<open>_extract_tournament_details\<close> returns.  The keys it
  always sets (\<^verbatim>\<open>id\<close>, \<^verbatim>\<open>extraction_method\<close>, \<^verbatim>\<open>timestamp\<close>, \<^verbatim>\<open>source\<close>,
  \<^verbatim>\<open>categories\<close>, \<^verbatim>\<open>registration_available\<close>, \<^verbatim>\<open>hash\<close>) are plain fields; a
  key it sets only when the page has the datum is an option, \<open>None\<close> for a
  missing key.  \<^verbatim>\<open>categories\<close> holds the tag texts (the source stores their JSON
  text, or None when there is no tag).
\<close>

record candidate =
  c_id :: pystr
  c_extraction_method :: pystr
  c_timestamp :: pystr
  c_source :: pystr
  c_name :: "pystr option"
  c_tournament_url :: "pystr option"
  c_tournament_id :: "pystr option"
  c_location :: "pystr option"
  c_date :: "pystr option"
  c_start_date :: "pystr option"
  c_end_date :: "pystr option"
  c_categories :: "pystr list option"
  c_registration_available :: bool
  c_registration_url :: "pystr option"
  c_registration_deadline :: "pystr option"
  c_registration_status :: "pystr option"
  c_hash :: pystr

text \<open>
  A row of the \<^verbatim>\<open>tournaments\<close> table, one field per column of
  \<^verbatim>\<open>setup_database\<close>.  \<^verbatim>\<open>id\<close> is the primary key and \<^verbatim>\<open>name\<close> is NOT NULL; every
  other column is nullable.
\<close>

record row =
  r_id :: pystr
  r_tournament_id :: "pystr option"
  r_name :: pystr
  r_location :: "pystr option"
  r_date :: "pystr option"
  r_start_date :: "pystr option"
  r_end_date :: "pystr option"
  r_categories :: "pystr list option"
  r_registration_available :: "bool option"
  r_registration_url :: "pystr option"
  r_registration_deadline :: "pystr option"
  r_registration_status :: "pystr option"
  r_tournament_url :: "pystr option"
  r_participant_count :: "int option"
  r_entry_fee :: "pystr option"
  r_contact_info :: "pystr option"
  r_source :: "pystr option"
  r_extraction_method :: "pystr option"
  r_raw_data :: "pystr option"
  r_scraped_at :: "pystr option"
  r_hash :: "pystr option"
  r_is_active :: "bool option"

datatype db_error = IntegrityError | OperationalError

text \<open>\<^verbatim>\<open>WHERE hash = ? AND is_active = 1\<close>: NULL never matches.\<close>

definition matches :: "pystr \<Rightarrow> row \<Rightarrow> bool" where
  "matches h r = (r_hash r = Some h \<and> r_is_active r = Some True)"

text \<open>The SELECT of \<^verbatim>\<open>_save_tournaments_to_db\<close> followed by \<^verbatim>\<open>fetchone()\<close>.\<close>

definition has_active :: "row list \<Rightarrow> pystr \<Rightarrow> bool" where
  "has_active rows h = list_ex (matches h) rows"

text \<open>
  The UPDATE branch on one row: the fourteen assigned columns, on the rows the
  WHERE clause selects.  \<open>ts\<close> is CURRENT\_TIMESTAMP at this statement and \<open>n\<close>
  the candidate's name.
\<close>

definition update_row :: "pystr \<Rightarrow> candidate \<Rightarrow> pystr \<Rightarrow> row \<Rightarrow> row" where
  "update_row ts c n r =
     (if matches (c_hash c) r
      then r\<lparr> r_name := n,
              r_location := c_location c,
              r_date := c_date c,
              r_start_date := c_start_date c,
              r_end_date := c_end_date c,
              r_categories := c_categories c,
              r_registration_available := Some (c_registration_available c),
              r_registration_url := c_registration_url c,
              r_registration_deadline := c_registration_deadline c,
              r_registration_status := c_registration_status c,
              r_tournament_url := c_tournament_url c,
              r_source := Some (c_source c),
              r_extraction_method := Some (c_extraction_method c),
              r_scraped_at := Some ts \<rparr>
      else r)"

text \<open>
  The INSERT branch: sixteen columns from the candidate, the others from the
  schema's defaults (\<^verbatim>\<open>scraped_at\<close> CURRENT\_TIMESTAMP, \<^verbatim>\<open>is_active\<close> 1, NULL).
\<close>

definition insert_row :: "pystr \<Rightarrow> candidate \<Rightarrow> pystr \<Rightarrow> row" where
  "insert_row ts c n =
     \<lparr> r_id = c_id c,
       r_tournament_id = c_tournament_id c,
       r_name = n,
       r_location = c_location c,
       r_date = c_date c,
       r_start_date = c_start_date c,
       r_end_date = c_end_date c,
       r_categories = c_categories c,
       r_registration_available = Some (c_registration_available c),
       r_registration_url = c_registration_url c,
       r_registration_deadline = c_registration_deadline c,
       r_registration_status = c_registration_status c,
       r_tournament_url = c_tournament_url c,
       r_participant_count = None,
       r_entry_fee = None,
       r_contact_info = None,
       r_source = Some (c_source c),
       r_extraction_method = Some (c_extraction_method c),
       r_raw_data = None,
       r_scraped_at = Some ts,
       r_hash = Some (c_hash c),
       r_is_active = Some True \<rparr>"

text \<open>
  The loop of \<^verbatim>\<open>_save_tournaments_to_db\<close> over the candidates, each paired with
  the store's clock reading at its statement.  A NULL name violates NOT NULL
  and a repeated \<^verbatim>\<open>id\<close> violates the primary key: sqlite3 raises IntegrityError,
  the function leaves without \<^verbatim>\<open>commit\<close>, and nothing is stored.
\<close>

fun save_loop :: "row list \<Rightarrow> nat \<Rightarrow> (pystr \<times> candidate) list \<Rightarrow> db_error + (row list \<times> nat)" where
  "save_loop rows saved_count [] = Inr (rows, saved_count)"
| "save_loop rows saved_count ((ts, c) # rest) =
     (case c_name c of
        None \<Rightarrow> Inl IntegrityError
      | Some n \<Rightarrow>
          if has_active rows (c_hash c)
          then save_loop (map (update_row ts c n) rows) saved_count rest
          else if c_id c \<in> set (map r_id rows) then Inl IntegrityError
          else save_loop (rows @ [insert_row ts c n]) (saved_count + 1) rest)"

text \<open>\<open>clock k\<close> is CURRENT\_TIMESTAMP when the \<open>k\<close>-th candidate is written.\<close>

definition stamped :: "(nat \<Rightarrow> pystr) \<Rightarrow> candidate list \<Rightarrow> (pystr \<times> candidate) list" where
  "stamped clock tournaments = zip (map clock [0..<length tournaments]) tournaments"

definition save_tournaments_to_db ::
  "(nat \<Rightarrow> pystr) \<Rightarrow> row list \<Rightarrow> candidate list \<Rightarrow> db_error + (row list \<times> nat)" where
  "save_tournaments_to_db clock rows tournaments = save_loop rows 0 (stamped clock tournaments)"

text \<open>The fingerprints that have an active row, one entry per such row.\<close>

definition active_hashes :: "row list \<Rightarrow> pystr list" where
  "active_hashes rows =
     concat (map (\<lambda>r. case r_hash r of
                         None \<Rightarrow> []
                       | Some h \<Rightarrow> if r_is_active r = Some True then [h] else []) rows)"

text \<open>A row with its refresh timestamp blanked: the columns a scrape can drift in.\<close>

definition without_scraped_at :: "row \<Rightarrow> row" where
  "without_scraped_at r = r\<lparr> r_scraped_at := None \<rparr>"

definition active_count :: "row list \<Rightarrow> nat" where
  "active_count rows = length (filter (\<lambda>r. r_is_active r = Some True) rows)"

text \<open>Replaying one statement's UPDATE on a row (no effect for a nameless candidate).\<close>

definition replay :: "pystr \<times> candidate \<Rightarrow> row \<Rightarrow> row" where
  "replay p r = (case c_name (snd p) of None \<Rightarrow> r | Some n \<Rightarrow> update_row (fst p) (snd p) n r)"

section \<open>Dates and times\<close>

text \<open>
  A naive \<^verbatim>\<open>datetime\<close>, field by field as the class has it.  Day arithmetic goes
  through the proleptic Gregorian ordinal, as \<^verbatim>\<open>timedelta\<close> addition does.
\<close>

record pydatetime =
  dt_year :: nat
  dt_month :: nat
  dt_day :: nat
  dt_hour :: nat
  dt_minute :: nat
  dt_second :: nat
  dt_microsecond :: nat

datatype py_error = OverflowError | TypeError

definition is_leap :: "nat \<Rightarrow> bool" where
  "is_leap y = (y mod 4 = 0 \<and> (y mod 100 \<noteq> 0 \<or> y mod 400 = 0))"

definition month_lengths :: "nat list" where
  "month_lengths = [31, 28, 31, 30, 31, 30, 31, 31, 30, 31, 30, 31]"

definition days_in_month :: "nat \<Rightarrow> nat \<Rightarrow> nat" where
  "days_in_month y m = (if m = 2 \<and> is_leap y then 29 else month_lengths ! (m - 1))"

definition days_before_month :: "nat \<Rightarrow> nat \<Rightarrow> nat" where
  "days_before_month y m =
     sum_list (take (m - 1) month_lengths) + (if 2 < m \<and> is_leap y then 1 else 0)"

definition days_before_year :: "nat \<Rightarrow> nat" where
  "days_before_year y =
     (let p = y - 1 in p * 365 + p div 4 + p div 400 - p div 100)"

definition ymd2ord :: "nat \<Rightarrow> nat \<Rightarrow> nat \<Rightarrow> nat" where
  "ymd2ord y m d = days_before_year y + days_before_month y m + d"

definition ord2ymd :: "nat \<Rightarrow> nat \<times> nat \<times> nat" where
  "ord2ymd ordinal =
     (let n = ordinal - 1;
          n400 = n div 146097; n = n mod 146097;
          n100 = n div 36524; n = n mod 36524;
          n4 = n div 1461; n = n mod 1461;
          n1 = n div 365; n = n mod 365;
          y = n400 * 400 + 1 + n100 * 100 + n4 * 4 + n1
      in if n1 = 4 \<or> n100 = 4 then (y - 1, 12, 31)
         else
           let leapyear = (n1 = 3 \<and> (n4 \<noteq> 24 \<or> n100 = 3));
               m = (n + 50) div 32;
               preceding = sum_list (take (m - 1) month_lengths)
                             + (if 2 < m \<and> leapyear then 1 else 0)
           in if n < preceding
              then (y, m - 1,
                    n + (month_lengths ! (m - 2) + (if m - 1 = 2 \<and> leapyear then 1 else 0))
                      - preceding + 1)
              else (y, m, n - preceding + 1))"

text \<open>
  \<^verbatim>\<open>dt + timedelta(days=k)\<close>; outside the years 1 to 9999 Python raises
  OverflowError.
\<close>

definition add_days :: "pydatetime \<Rightarrow> int \<Rightarrow> py_error + pydatetime" where
  "add_days dt k =
     (let ordinal = int (ymd2ord (dt_year dt) (dt_month dt) (dt_day dt)) + k
      in if 1 \<le> ordinal \<and> ordinal \<le> 3652059
         then (case ord2ymd (nat ordinal) of
                 (y, m, d) \<Rightarrow> Inr (dt\<lparr> dt_year := y, dt_month := m, dt_day := d \<rparr>))
         else Inl OverflowError)"

text \<open>Naive datetimes compare field by field, most significant first.\<close>

definition dt_key :: "pydatetime \<Rightarrow> nat list" where
  "dt_key dt = [dt_year dt, dt_month dt, dt_day dt, dt_hour dt, dt_minute dt, dt_second dt,
                dt_microsecond dt]"

definition dt_le :: "pydatetime \<Rightarrow> pydatetime \<Rightarrow> bool" where
  "dt_le a b = (dt_key a \<le> dt_key b)"

definition iso_date :: "pydatetime \<Rightarrow> pystr" where
  "iso_date dt = zpad 4 (dt_year dt) @ S ''-'' @ zpad 2 (dt_month dt) @ S ''-'' @ zpad 2 (dt_day dt)"

definition iso_time :: "pydatetime \<Rightarrow> pystr" where
  "iso_time dt = zpad 2 (dt_hour dt) @ S '':'' @ zpad 2 (dt_minute dt) @ S '':'' @ zpad 2 (dt_second dt)"

text \<open>\<^verbatim>\<open>dt.isoformat()\<close>: the fraction is printed only when it is not zero.\<close>

definition isoformat :: "pydatetime \<Rightarrow> pystr" where
  "isoformat dt =
     iso_date dt @ S ''T'' @ iso_time dt
       @ (if dt_microsecond dt = 0 then [] else S ''.'' @ zpad 6 (dt_microsecond dt))"

text \<open>SQLite's CURRENT\_TIMESTAMP: \<^verbatim>\<open>YYYY-MM-DD HH:MM:SS\<close>, no fraction.\<close>

definition sqlite_timestamp :: "pydatetime \<Rightarrow> pystr" where
  "sqlite_timestamp dt = iso_date dt @ S '' '' @ iso_time dt"

subsection \<open>Parsing: \<^verbatim>\<open>datetime.fromisoformat\<close>\<close>

text \<open>
  The grammar of CPython 3.7 to 3.10, the strings \<^verbatim>\<open>isoformat\<close> emits:
  \<^verbatim>\<open>YYYY-MM-DD[*HH[:MM[:SS[.fff[fff]]]][+HH:MM[:SS[.ffffff]]]]\<close>, with the range
  checks of the constructor.  \<open>None\<close> is ValueError.  A parsed value is naive, or
  aware with its UTC offset in microseconds.
\<close>

datatype parsed = Naive pydatetime | Aware pydatetime int

definition is_digit :: "nat \<Rightarrow> bool" where
  "is_digit c = (c \<in> set (S ''0123456789''))"

definition digit_value :: "nat \<Rightarrow> nat" where
  "digit_value c =
     (case map_of (zip (S ''0123456789'') [0, 1, 2, 3, 4, 5, 6, 7, 8, 9]) c of
        None \<Rightarrow> 0
      | Some v \<Rightarrow> v)"

definition digits_value :: "pystr \<Rightarrow> nat" where
  "digits_value s = foldl (\<lambda>a c. 10 * a + digit_value c) 0 s"

text \<open>A field of exactly \<open>w\<close> decimal digits.\<close>

definition num_field :: "nat \<Rightarrow> pystr \<Rightarrow> nat option" where
  "num_field w s = (if length s = w \<and> list_all is_digit s then Some (digits_value s) else None)"

definition parse_isoformat_date :: "pystr \<Rightarrow> (nat \<times> nat \<times> nat) option" where
  "parse_isoformat_date dstr =
     (if length dstr \<noteq> 10 \<or> dstr ! 4 \<noteq> cp (CHR ''-'') \<or> dstr ! 7 \<noteq> cp (CHR ''-'') then None
      else case (num_field 4 (take 4 dstr), num_field 2 (take 2 (drop 5 dstr)),
                 num_field 2 (drop 8 dstr)) of
             (Some y, Some m, Some d) \<Rightarrow>
               if 1 \<le> y \<and> 1 \<le> m \<and> m \<le> 12 \<and> 1 \<le> d \<and> d \<le> days_in_month y m
               then Some (y, m, d) else None
           | _ \<Rightarrow> None)"

definition parse_hh_mm_ss_ff :: "pystr \<Rightarrow> (nat \<times> nat \<times> nat \<times> nat) option" where
  "parse_hh_mm_ss_ff t =
     (case num_field 2 (take 2 t) of
        None \<Rightarrow> None
      | Some h \<Rightarrow>
          if length t = 2 then Some (h, 0, 0, 0)
          else if t ! 2 \<noteq> cp (CHR '':'') then None
          else case num_field 2 (take 2 (drop 3 t)) of
            None \<Rightarrow> None
          | Some m \<Rightarrow>
              if length t = 5 then Some (h, m, 0, 0)
              else if t ! 5 \<noteq> cp (CHR '':'') then None
              else case num_field 2 (take 2 (drop 6 t)) of
                None \<Rightarrow> None
              | Some s \<Rightarrow>
                  if length t = 8 then Some (h, m, s, 0)
                  else if t ! 8 \<noteq> cp (CHR ''.'') then None
                  else case (num_field 3 (drop 9 t), num_field 6 (drop 9 t)) of
                         (Some f, _) \<Rightarrow> Some (h, m, s, f * 1000)
                       | (None, Some f) \<Rightarrow> Some (h, m, s, f)
                       | _ \<Rightarrow> None)"

text \<open>\<^verbatim>\<open>tstr.find(c) + 1\<close>: one past the first \<open>c\<close>, or 0.\<close>

fun find_plus_one :: "nat \<Rightarrow> pystr \<Rightarrow> nat" where
  "find_plus_one c [] = 0"
| "find_plus_one c (x # xs) =
     (if x = c then 1 else case find_plus_one c xs of 0 \<Rightarrow> 0 | Suc k \<Rightarrow> Suc (Suc k))"

definition fromisoformat :: "pystr \<Rightarrow> parsed option" where
  "fromisoformat date_string =
     (case parse_isoformat_date (take 10 date_string) of
        None \<Rightarrow> None
      | Some (y, m, d) \<Rightarrow>
          let tstr = drop 11 date_string;
              day0 = \<lparr> dt_year = y, dt_month = m, dt_day = d, dt_hour = 0, dt_minute = 0,
                       dt_second = 0, dt_microsecond = 0 \<rparr>
          in if tstr = [] then Some (Naive day0)
             else
               let minus = find_plus_one (cp (CHR ''-'')) tstr;
                   tz_pos = (if minus \<noteq> 0 then minus else find_plus_one (cp (CHR ''+'')) tstr);
                   timestr = (if 0 < tz_pos then take (tz_pos - 1) tstr else tstr)
               in case parse_hh_mm_ss_ff timestr of
                    None \<Rightarrow> None
                  | Some (hh, mm, ss, ff) \<Rightarrow>
                      if \<not> (hh < 24 \<and> mm < 60 \<and> ss < 60) then None
                      else
                        let dt = day0\<lparr> dt_hour := hh, dt_minute := mm, dt_second := ss,
                                       dt_microsecond := ff \<rparr>
                        in if tz_pos = 0 then Some (Naive dt)
                           else
                             let tzstr = drop tz_pos tstr
                             in if length tzstr \<notin> {5, 8, 15} then None
                                else case parse_hh_mm_ss_ff tzstr of
                                  None \<Rightarrow> None
                                | Some (zh, zm, zs, zf) \<Rightarrow>
                                    let off = int (((zh * 60 + zm) * 60 + zs) * 1000000 + zf)
                                    in if 86400000000 \<le> off then None
                                       else Some (Aware dt
                                              (if tstr ! (tz_pos - 1) = cp (CHR ''-'') then - off
                                               else off)))"

section \<open>MD5\<close>

text \<open>
  \<^verbatim>\<open>hashlib.md5(s.encode()).hexdigest()\<close> (RFC 1321) on 32-bit quantities kept as
  naturals below \<open>2\<^sup>3\<^sup>2\<close>, every addition reduced modulo \<open>2\<^sup>3\<^sup>2\<close>; the
  digest is printed as text, two hexadecimal digits per byte.
\<close>

definition md5_K :: "nat list" where
  "md5_K =
     [0xd76aa478, 0xe8c7b756, 0x242070db, 0xc1bdceee,
      0xf57c0faf, 0x4787c62a, 0xa8304613, 0xfd469501,
      0x698098d8, 0x8b44f7af, 0xffff5bb1, 0x895cd7be,
      0x6b901122, 0xfd987193, 0xa679438e, 0x49b40821,
      0xf61e2562, 0xc040b340, 0x265e5a51, 0xe9b6c7aa,
      0xd62f105d, 0x02441453, 0xd8a1e681, 0xe7d3fbc8,
      0x21e1cde6, 0xc33707d6, 0xf4d50d87, 0x455a14ed,
      0xa9e3e905, 0xfcefa3f8, 0x676f02d9, 0x8d2a4c8a,
      0xfffa3942, 0x8771f681, 0x6d9d6122, 0xfde5380c,
      0xa4beea44, 0x4bdecfa9, 0xf6bb4b60, 0xbebfbc70,
      0x289b7ec6, 0xeaa127fa, 0xd4ef3085, 0x04881d05,
      0xd9d4d039, 0xe6db99e5, 0x1fa27cf8, 0xc4ac5665,
      0xf4292244, 0x432aff97, 0xab9423a7, 0xfc93a039,
      0x655b59c3, 0x8f0ccc92, 0xffeff47d, 0x85845dd1,
      0x6fa87e4f, 0xfe2ce6e0, 0xa3014314, 0x4e0811a1,
      0xf7537e82, 0xbd3af235, 0x2ad7d2bb, 0xeb86d391]"

definition md5_s :: "nat list" where
  "md5_s =
     [7, 12, 17, 22, 7, 12, 17, 22, 7, 12, 17, 22, 7, 12, 17, 22,
      5, 9, 14, 20, 5, 9, 14, 20, 5, 9, 14, 20, 5, 9, 14, 20,
      4, 11, 16, 23, 4, 11, 16, 23, 4, 11, 16, 23, 4, 11, 16, 23,
      6, 10, 15, 21, 6, 10, 15, 21, 6, 10, 15, 21, 6, 10, 15, 21]"

type_synonym md5_state = "nat \<times> nat \<times> nat \<times> nat"

definition add32 :: "nat \<Rightarrow> nat \<Rightarrow> nat" where
  "add32 a b = (a + b) mod 4294967296"

definition not32 :: "nat \<Rightarrow> nat" where
  "not32 a = 4294967295 - a"

definition rotl32 :: "nat \<Rightarrow> nat \<Rightarrow> nat" where
  "rotl32 s x = (x * 2 ^ s) mod 4294967296 + x div 2 ^ (32 - s)"

definition md5_F :: "nat \<Rightarrow> nat \<Rightarrow> nat \<Rightarrow> nat \<Rightarrow> nat" where
  "md5_F i B C D =
     (if i < 16 then (B AND C) OR (not32 B AND D)
      else if i < 32 then (D AND B) OR (not32 D AND C)
      else if i < 48 then B XOR C XOR D
      else C XOR (B OR not32 D))"

definition md5_g :: "nat \<Rightarrow> nat" where
  "md5_g i =
     (if i < 16 then i
      else if i < 32 then (5 * i + 1) mod 16
      else if i < 48 then (3 * i + 5) mod 16
      else (7 * i) mod 16)"

fun md5_step :: "nat list \<Rightarrow> nat \<Rightarrow> md5_state \<Rightarrow> md5_state" where
  "md5_step M i (A, B, C, D) =
     (D, add32 B (rotl32 (md5_s ! i)
                    (add32 (add32 (add32 (md5_F i B C D) A) (md5_K ! i)) (M ! md5_g i))),
      B, C)"

fun md5_add :: "md5_state \<Rightarrow> md5_state \<Rightarrow> md5_state" where
  "md5_add (a0, b0, c0, d0) (A, B, C, D) = (add32 a0 A, add32 b0 B, add32 c0 C, add32 d0 D)"

definition md5_block :: "md5_state \<Rightarrow> nat list \<Rightarrow> md5_state" where
  "md5_block st M = md5_add st (fold (md5_step M) [0..<64] st)"

fun le_words :: "nat list \<Rightarrow> nat list" where
  "le_words (b0 # b1 # b2 # b3 # rest) =
     (b0 + 256 * b1 + 65536 * b2 + 16777216 * b3) # le_words rest"
| "le_words _ = []"

definition le_bytes4 :: "nat \<Rightarrow> nat list" where
  "le_bytes4 w = [w mod 256, w div 256 mod 256, w div 65536 mod 256, w div 16777216 mod 256]"

definition md5_pad :: "nat list \<Rightarrow> nat list" where
  "md5_pad bs =
     bs @ [128] @ replicate ((119 - length bs mod 64) mod 64) 0
        @ le_bytes4 (8 * length bs mod 4294967296)
        @ le_bytes4 (8 * length bs div 4294967296 mod 4294967296)"

function md5_blocks :: "md5_state \<Rightarrow> nat list \<Rightarrow> md5_state" where
  "md5_blocks st ws =
     (if length ws < 16 then st else md5_blocks (md5_block st (take 16 ws)) (drop 16 ws))"
  by pat_completeness auto
termination
  by (relation "measure (\<lambda>(st, ws). length ws)") auto

declare md5_blocks.simps [simp del]

definition hex_byte :: "nat \<Rightarrow> pystr" where
  "hex_byte b = [S ''0123456789abcdef'' ! (b div 16), S ''0123456789abcdef'' ! (b mod 16)]"

fun md5_digest :: "md5_state \<Rightarrow> nat list" where
  "md5_digest (a, b, c, d) = le_bytes4 a @ le_bytes4 b @ le_bytes4 c @ le_bytes4 d"

text \<open>
  \<^verbatim>\<open>s.encode()\<close>: the UTF-8 bytes of a text, one to four per code point.  (Python
  refuses to encode a surrogate code point; the fields that are hashed come from
  the page source, which holds none.)
\<close>

definition utf8_char :: "nat \<Rightarrow> nat list" where
  "utf8_char c =
     (if c < 0x80 then [c]
      else if c < 0x800 then [0xC0 + c div 64, 0x80 + c mod 64]
      else if c < 0x10000 then [0xE0 + c div 4096, 0x80 + c div 64 mod 64, 0x80 + c mod 64]
      else [0xF0 + c div 262144, 0x80 + c div 4096 mod 64, 0x80 + c div 64 mod 64,
            0x80 + c mod 64])"

definition encode :: "pystr \<Rightarrow> nat list" where
  "encode s = concat (map utf8_char s)"

definition md5_hex :: "pystr \<Rightarrow> pystr" where
  "md5_hex s =
     concat (map hex_byte (md5_digest
       (md5_blocks (0x67452301, 0xefcdab89, 0x98badcfe, 0x10325476)
          (le_words (md5_pad (encode s))))))"

section \<open>The rendered page\<close>

text \<open>
  The parsed page is a tree of tags, each with its attributes and children, and
  text nodes.  The queries are the BeautifulSoup calls of the scraper:
  \<^verbatim>\<open>find_all\<close> and \<^verbatim>\<open>find\<close> search the descendants in document order,
  \<^verbatim>\<open>class_=\<close> matches one of the whitespace-separated classes, an attribute
  given as \<^verbatim>\<open>True\<close> must be present, \<^verbatim>\<open>get_text()\<close> joins the text nodes and
  \<^verbatim>\<open>get_text(strip=True)\<close> joins them stripped.
\<close>

datatype html = Tag pystr "(pystr \<times> pystr) list" "html list" | Text pystr

fun descendants :: "html \<Rightarrow> html list" where
  "descendants (Text s) = []"
| "descendants (Tag name attrs children) = concat (map (\<lambda>c. c # descendants c) children)"

fun strings :: "html \<Rightarrow> pystr list" where
  "strings (Text s) = [s]"
| "strings (Tag name attrs children) = concat (map strings children)"

definition get_text :: "html \<Rightarrow> pystr" where
  "get_text e = concat (strings e)"

definition get_text_strip :: "html \<Rightarrow> pystr" where
  "get_text_strip e = concat (map py_strip (strings e))"

fun tag_name :: "html \<Rightarrow> pystr option" where
  "tag_name (Text s) = None"
| "tag_name (Tag name attrs children) = Some name"

fun get_attr :: "html \<Rightarrow> pystr \<Rightarrow> pystr option" where
  "get_attr (Text s) k = None"
| "get_attr (Tag name attrs children) k = map_of attrs k"

fun ws_split_aux :: "pystr \<Rightarrow> pystr \<Rightarrow> pystr list" where
  "ws_split_aux acc [] = (if acc = [] then [] else [rev acc])"
| "ws_split_aux acc (c # cs) =
     (if py_isspace c
      then (if acc = [] then ws_split_aux [] cs else rev acc # ws_split_aux [] cs)
      else ws_split_aux (c # acc) cs)"

definition has_class :: "pystr list \<Rightarrow> html \<Rightarrow> bool" where
  "has_class wanted e =
     (case get_attr e (S ''class'') of
        None \<Rightarrow> False
      | Some v \<Rightarrow> list_ex (\<lambda>c. c \<in> set wanted) (ws_split_aux [] v))"

definition has_attr :: "pystr \<Rightarrow> html \<Rightarrow> bool" where
  "has_attr k e = (get_attr e k \<noteq> None)"

definition find_all :: "html \<Rightarrow> pystr \<Rightarrow> (html \<Rightarrow> bool) \<Rightarrow> html list" where
  "find_all e name p = filter (\<lambda>d. tag_name d = Some name \<and> p d) (descendants e)"

definition find_first :: "html \<Rightarrow> pystr \<Rightarrow> (html \<Rightarrow> bool) \<Rightarrow> html option" where
  "find_first e name p = (case find_all e name p of [] \<Rightarrow> None | d # _ \<Rightarrow> Some d)"

text \<open>
  An element with the whitespace around each of its texts taken away.  Two elements
  that differ only in such whitespace have the same image.
\<close>

fun trimmed :: "html \<Rightarrow> html" where
  "trimmed (Text s) = Text (py_strip s)"
| "trimmed (Tag name attrs children) = Tag name attrs (map trimmed children)"

section \<open>The record extractor\<close>

definition base_url :: pystr where
  "base_url = S ''https://nttb.toernooi.nl''"

text \<open>The candidate filter of \<^verbatim>\<open>_parse_tournaments\<close>.\<close>

definition qualifies :: "lower_table \<Rightarrow> html \<Rightarrow> bool" where
  "qualifies lo elem =
     (find_first elem (S ''h4'') (has_class [S ''media__title'']) \<noteq> None
      \<and> find_first elem (S ''input'') (\<lambda>d. get_attr d (S ''type'') = Some (S ''checkbox'')) = None
      \<and> find_first elem (S ''div'') (has_class [S ''ad'']) = None
      \<and> \<not> py_in (S ''cookie'') (take 100 (py_lower lo (get_text elem))))"

definition tournament_elements :: "lower_table \<Rightarrow> html \<Rightarrow> html list" where
  "tournament_elements lo soup = filter (qualifies lo) (find_all soup (S ''li'') (has_class [S ''list__item'']))"

definition registration_keywords :: "pystr list" where
  "registration_keywords = [S ''inschrijv'', S ''register'', S ''aanmeld'', S ''sign up'']"

definition closed_keywords :: "pystr list" where
  "closed_keywords = [S ''gesloten'', S ''closed'', S ''vol'', S ''full'']"

text \<open>The body of the \<^verbatim>\<open>for link in reg_links\<close> loop, with its \<^verbatim>\<open>break\<close>.\<close>

fun registration_loop :: "lower_table \<Rightarrow> html list \<Rightarrow> candidate \<Rightarrow> candidate" where
  "registration_loop lo [] tournament = tournament"
| "registration_loop lo (link # reg_links) tournament =
     (let href = get_str (get_attr link (S ''href''));
          text = py_lower lo (get_text link)
      in if list_ex (\<lambda>keyword. py_in keyword text) registration_keywords
         then
           let t1 = tournament\<lparr> c_registration_available := True \<rparr>;
               t2 = (if href \<noteq> []
                     then (if startswith href (S ''/'')
                           then t1\<lparr> c_registration_url := Some (base_url @ href) \<rparr>
                           else if startswith href (S ''http'')
                           then t1\<lparr> c_registration_url := Some href \<rparr>
                           else t1)
                     else t1)
           in if list_ex (\<lambda>closed. py_in closed text) closed_keywords
              then t2\<lparr> c_registration_status := Some (S ''closed''),
                       c_registration_available := False \<rparr>
              else t2
         else registration_loop lo reg_links tournament)"

definition extract_registration_info :: "lower_table \<Rightarrow> html \<Rightarrow> candidate \<Rightarrow> candidate" where
  "extract_registration_info lo element tournament =
     registration_loop lo (find_all element (S ''a'') (has_attr (S ''href'')))
       (tournament\<lparr> c_registration_available := False \<rparr>)"

text \<open>The string the fingerprint is taken of, and the fingerprint.\<close>

definition hash_string :: "candidate \<Rightarrow> pystr" where
  "hash_string tournament =
     get_str (c_name tournament) @ get_str (c_start_date tournament)
       @ get_str (c_location tournament)"

definition with_hash :: "candidate \<Rightarrow> candidate" where
  "with_hash tournament = tournament\<lparr> c_hash := md5_hex (hash_string tournament) \<rparr>"

text \<open>The dict \<^verbatim>\<open>_extract_tournament_details\<close> starts from; \<^verbatim>\<open>hash\<close> is set last.\<close>

definition new_candidate :: "pystr \<Rightarrow> nat \<Rightarrow> nat \<Rightarrow> pydatetime \<Rightarrow> candidate" where
  "new_candidate source index epoch now =
     \<lparr> c_id = S ''tournament_'' @ source @ S ''_'' @ str_nat index @ S ''_'' @ str_nat epoch,
       c_extraction_method = S ''nttb_scraper_v2'',
       c_timestamp = isoformat now,
       c_source = source,
       c_name = None, c_tournament_url = None, c_tournament_id = None, c_location = None,
       c_date = None, c_start_date = None, c_end_date = None, c_categories = None,
       c_registration_available = False, c_registration_url = None,
       c_registration_deadline = None, c_registration_status = None, c_hash = [] \<rparr>"

text \<open>
  The steps of \<^verbatim>\<open>_extract_tournament_details\<close>, in its order: name and URL from the
  title element, location from the first subheading, dates from the second,
  categories from the tag lists, then the registration data and the hash.  A
  key of the dict is set only where the element has the datum.
\<close>

definition extract_title :: "html \<Rightarrow> candidate \<Rightarrow> candidate" where
  "extract_title element tournament =
     (case find_first element (S ''h4'') (has_class [S ''media__title'']) of
        None \<Rightarrow> tournament
      | Some title_element \<Rightarrow>
          let t1 = (case find_first title_element (S ''span'') (has_class [S ''nav-link__value'']) of
                      None \<Rightarrow> tournament
                    | Some name_span \<Rightarrow> tournament\<lparr> c_name := Some (get_text_strip name_span) \<rparr>)
          in case find_first title_element (S ''a'') (has_attr (S ''href'')) of
               None \<Rightarrow> t1
             | Some title_link \<Rightarrow>
                 let href = get_str (get_attr title_link (S ''href''));
                     t2 = t1\<lparr> c_tournament_url :=
                               Some (if startswith href (S ''/'') then base_url @ href else href) \<rparr>
                 in if py_in (S ''id='') href
                    then t2\<lparr> c_tournament_id :=
                              Some (hd (py_split (py_split href (S ''id='') ! 1) (S ''&''))) \<rparr>
                    else t2)"

definition extract_location :: "html list \<Rightarrow> candidate \<Rightarrow> candidate" where
  "extract_location subheadings tournament =
     (case subheadings of
        [] \<Rightarrow> tournament
      | first # _ \<Rightarrow>
          (case find_first first (S ''span'') (has_class [S ''nav-link__value'']) of
             None \<Rightarrow> tournament
           | Some location_span \<Rightarrow>
               let location_text = get_text_strip location_span
               in if py_in (S ''|'') location_text
                  then tournament\<lparr> c_location := Some (py_strip (py_split location_text (S ''|'') ! 1)) \<rparr>
                  else tournament\<lparr> c_location := Some location_text \<rparr>))"

definition extract_dates :: "html list \<Rightarrow> candidate \<Rightarrow> candidate" where
  "extract_dates subheadings tournament =
     (case subheadings of
        _ # date_subheading # _ \<Rightarrow>
          (case find_all date_subheading (S ''time'') (has_attr (S ''datetime'')) of
             [] \<Rightarrow> tournament
           | [t0] \<Rightarrow> tournament\<lparr> c_date := Some (get_text_strip t0),
                                   c_start_date := get_attr t0 (S ''datetime'') \<rparr>
           | t0 # t1 # _ \<Rightarrow>
               tournament\<lparr> c_date := Some (get_text_strip t0 @ S '' t/m '' @ get_text_strip t1),
                            c_start_date := get_attr t0 (S ''datetime''),
                            c_end_date := get_attr t1 (S ''datetime'') \<rparr>)
      | _ \<Rightarrow> tournament)"

definition extract_categories :: "html \<Rightarrow> pystr list" where
  "extract_categories element =
     filter (\<lambda>tag_text. 1 < length tag_text)
       (map get_text_strip
          (concat (map (\<lambda>tag_list. find_all tag_list (S ''span'') (has_class [S ''tag'', S ''tag-duo'']))
                       (find_all element (S ''ul'') (has_class [S ''list--inline''])))))"

definition extract_tournament_details ::
  "lower_table \<Rightarrow> html \<Rightarrow> nat \<Rightarrow> pystr \<Rightarrow> nat \<Rightarrow> pydatetime \<Rightarrow> candidate" where
  "extract_tournament_details lo element index source epoch now =
     (let subheadings = find_all element (S ''small'') (has_class [S ''media__subheading'']);
          categories = extract_categories element;
          tournament =
            extract_dates subheadings
              (extract_location subheadings
                 (extract_title element (new_candidate source index epoch now)))
      in with_hash
           (extract_registration_info lo element
              (tournament\<lparr> c_categories := (if categories = [] then None else Some categories) \<rparr>)))"

text \<open>
  \<^verbatim>\<open>_parse_tournaments\<close>: the qualifying elements, numbered from 0, each
  extracted, and kept when its name is non-empty.
\<close>

definition parse_tournaments :: "lower_table \<Rightarrow> html \<Rightarrow> pystr \<Rightarrow> nat \<Rightarrow> pydatetime \<Rightarrow> candidate list" where
  "parse_tournaments lo soup source epoch now =
     filter (\<lambda>tournament_data. truthy (c_name tournament_data))
       (map (\<lambda>(i, element). extract_tournament_details lo element i source epoch now)
            (enumerate 0 (tournament_elements lo soup)))"

section \<open>The deduplicator\<close>

definition dedup_key :: "lower_table \<Rightarrow> candidate \<Rightarrow> pystr \<times> pystr \<times> pystr" where
  "dedup_key lo tournament =
     (py_lower lo (py_strip (get_str (c_name tournament))),
      py_strip (get_str (c_start_date tournament)),
      py_lower lo (py_strip (get_str (c_location tournament))))"

text \<open>The loop of \<^verbatim>\<open>_remove_duplicate_tournaments\<close>, with its dict \<open>seen\<close> and list \<open>unique\<close>.\<close>

fun dedup_loop ::
  "lower_table \<Rightarrow> (pystr \<times> pystr \<times> pystr \<rightharpoonup> candidate) \<Rightarrow> candidate list \<Rightarrow> candidate list \<Rightarrow> candidate list" where
  "dedup_loop lo seen unique [] = unique"
| "dedup_loop lo seen unique (tournament # rest) =
     (if \<not> truthy (c_name tournament) then dedup_loop lo seen unique rest
      else if seen (dedup_key lo tournament) = None
      then dedup_loop lo (seen(dedup_key lo tournament \<mapsto> tournament)) (unique @ [tournament]) rest
      else dedup_loop lo seen unique rest)"

definition remove_duplicate_tournaments :: "lower_table \<Rightarrow> candidate list \<Rightarrow> candidate list" where
  "remove_duplicate_tournaments lo tournaments = dedup_loop lo Map.empty [] tournaments"

text \<open>
  The result of the loop, written without the dict: the named candidates whose key
  is not in \<open>K\<close> and has not occurred earlier in the list.
\<close>

fun firsts :: "lower_table \<Rightarrow> (pystr \<times> pystr \<times> pystr) set \<Rightarrow> candidate list \<Rightarrow> candidate list" where
  "firsts lo K [] = []"
| "firsts lo K (t # ts) =
     (if \<not> truthy (c_name t) \<or> dedup_key lo t \<in> K then firsts lo K ts
      else t # firsts lo (insert (dedup_key lo t) K) ts)"

section \<open>The retention sweep\<close>

text \<open>
  SQLite compares two TEXT values byte by byte, on their UTF-8 encoding, which
  orders texts as the lists of their code points are ordered; a comparison with
  NULL is not true.
\<close>

definition sql_lt :: "pystr option \<Rightarrow> pystr \<Rightarrow> bool" where
  "sql_lt v bound = (case v of None \<Rightarrow> False | Some s \<Rightarrow> s < bound)"

text \<open>The WHERE clause of \<^verbatim>\<open>cleanup_old_tournaments\<close>.\<close>

definition is_old :: "pystr \<Rightarrow> pystr \<Rightarrow> row \<Rightarrow> bool" where
  "is_old cutoff one_week_ago r =
     (sql_lt (r_scraped_at r) cutoff
      \<or> (r_end_date r \<noteq> None \<and> sql_lt (r_end_date r) one_week_ago)
      \<or> (r_start_date r \<noteq> None \<and> r_end_date r = None \<and> sql_lt (r_start_date r) one_week_ago))"

definition cleanup_old_tournaments :: "pydatetime \<Rightarrow> int \<Rightarrow> row list \<Rightarrow> py_error + row list" where
  "cleanup_old_tournaments now days_old rows =
     (case add_days now (- days_old) of
        Inl e \<Rightarrow> Inl e
      | Inr cutoff_date \<Rightarrow>
          (case add_days now (- 7) of
             Inl e \<Rightarrow> Inl e
           | Inr week \<Rightarrow>
               Inr (map (\<lambda>r. if is_old (isoformat cutoff_date) (isoformat week) r
                              then r\<lparr> r_is_active := Some False \<rparr> else r) rows)))"

section \<open>The query facade\<close>

text \<open>The dataclass \<^verbatim>\<open>Tournament\<close> of the adapter.\<close>

record tournament =
  t_id :: pystr
  t_name :: pystr
  t_location :: pystr
  t_date :: pystr
  t_start_date :: pystr
  t_end_date :: "pystr option"
  t_categories :: "pystr list"
  t_registration_available :: bool
  t_registration_url :: "pystr option"
  t_registration_deadline :: "pystr option"
  t_tournament_url :: "pystr option"
  t_source :: pystr

text \<open>\<^verbatim>\<open>value or default\<close> on a nullable text column.\<close>

definition or_default :: "pystr option \<Rightarrow> pystr \<Rightarrow> pystr" where
  "or_default v d = (case v of None \<Rightarrow> d | Some s \<Rightarrow> if s = [] then d else s)"

definition to_tournament :: "row \<Rightarrow> tournament" where
  "to_tournament r =
     \<lparr> t_id = r_id r,
       t_name = r_name r,
       t_location = or_default (r_location r) (S ''Unknown''),
       t_date = or_default (r_date r) (S ''TBA''),
       t_start_date = or_default (r_start_date r) [],
       t_end_date = r_end_date r,
       t_categories = (case r_categories r of None \<Rightarrow> [] | Some cs \<Rightarrow> cs),
       t_registration_available = (r_registration_available r = Some True),
       t_registration_url = r_registration_url r,
       t_registration_deadline = r_registration_deadline r,
       t_tournament_url = r_tournament_url r,
       t_source = or_default (r_source r) (S ''unknown'') \<rparr>"

text \<open>
  What the store answers to the SELECT of a read: the table, or a fault
  (\<^verbatim>\<open>sqlite3.connect\<close>, \<^verbatim>\<open>execute\<close> or \<^verbatim>\<open>fetchall\<close> raising).  The rows come
  back \<^verbatim>\<open>WHERE is_active = 1 ORDER BY start_date ASC\<close>, NULL first.
\<close>

type_synonym store = "db_error + row list"

definition select_active :: "row list \<Rightarrow> row list" where
  "select_active rows = sort_key r_start_date (filter (\<lambda>r. r_is_active r = Some True) rows)"

definition get_all_tournaments :: "store \<Rightarrow> tournament list" where
  "get_all_tournaments db =
     (case db of
        Inl e \<Rightarrow> []
      | Inr rows \<Rightarrow> map to_tournament (select_active rows))"

text \<open>\<^verbatim>\<open>s.replace('Z', '+00:00')\<close>.\<close>

definition replace_Z :: "pystr \<Rightarrow> pystr" where
  "replace_Z s = concat (map (\<lambda>c. if c = (cp (CHR ''Z'')) then (S ''+00:00'') else [c]) s)"

text \<open>
  The loop of \<^verbatim>\<open>get_upcoming_tournaments\<close>.  Comparing the naive \<open>now\<close> with an
  aware start raises TypeError, which the \<^verbatim>\<open>except (ValueError, AttributeError)\<close>
  does not catch.
\<close>

fun upcoming_loop ::
  "pydatetime \<Rightarrow> pydatetime \<Rightarrow> tournament list \<Rightarrow> tournament list \<Rightarrow> py_error + tournament list" where
  "upcoming_loop now cutoff upcoming [] = Inr upcoming"
| "upcoming_loop now cutoff upcoming (t # rest) =
     (if t_start_date t \<noteq> []
      then (case fromisoformat (replace_Z (t_start_date t)) of
              None \<Rightarrow> upcoming_loop now cutoff (upcoming @ [t]) rest
            | Some (Naive start) \<Rightarrow>
                if dt_le now start \<and> dt_le start cutoff
                then upcoming_loop now cutoff (upcoming @ [t]) rest
                else upcoming_loop now cutoff upcoming rest
            | Some (Aware start off) \<Rightarrow> Inl TypeError)
      else upcoming_loop now cutoff upcoming rest)"

definition get_upcoming_tournaments :: "pydatetime \<Rightarrow> int \<Rightarrow> store \<Rightarrow> py_error + tournament list" where
  "get_upcoming_tournaments now days db =
     (let all_tournaments = get_all_tournaments db
      in case add_days now days of
           Inl e \<Rightarrow> Inl e
         | Inr cutoff \<Rightarrow> upcoming_loop now cutoff [] all_tournaments)"

definition get_tournaments_with_registration :: "store \<Rightarrow> tournament list" where
  "get_tournaments_with_registration db =
     filter t_registration_available (get_all_tournaments db)"

definition search_tournaments :: "lower_table \<Rightarrow> pystr \<Rightarrow> store \<Rightarrow> tournament list" where
  "search_tournaments lo query db =
     (let query_lower = py_lower lo query
      in filter (\<lambda>t. py_in query_lower (py_lower lo (t_name t))
                      \<or> py_in query_lower (py_lower lo (t_location t)))
           (get_all_tournaments db))"

record stats =
  total :: nat
  upcoming_30_days :: nat
  with_registration :: nat

text \<open>\<^verbatim>\<open>get_tournament_stats\<close> reads the store three times, once per count.\<close>

definition get_tournament_stats :: "pydatetime \<Rightarrow> store \<Rightarrow> store \<Rightarrow> store \<Rightarrow> py_error + stats" where
  "get_tournament_stats now db1 db2 db3 =
     (case get_upcoming_tournaments now 30 db2 of
        Inl e \<Rightarrow> Inl e
      | Inr upcoming \<Rightarrow>
          Inr \<lparr> total = length (get_all_tournaments db1),
                upcoming_30_days = length upcoming,
                with_registration = length (get_tournaments_with_registration db3) \<rparr>)"

text \<open>Whether a stored start date parses to a datetime with a UTC offset.\<close>

definition parses_aware :: "pystr \<Rightarrow> bool" where
  "parses_aware s =
     (case fromisoformat (replace_Z s) of Some (Aware start off) \<Rightarrow> True | _ \<Rightarrow> False)"

section \<open>Example data\<close>

text \<open>
  Concrete candidates, rows, elements and clock readings for the witnesses: the
  hashes are the MD5 digests of the candidates' own name, start date and location.
\<close>

text \<open>
  The entries of the Unicode table for the two non-ASCII capitals of the examples:
  E with acute (U+00C9) lowers to U+00E9, and I with dot above (U+0130) to \<^verbatim>\<open>i\<close>
  followed by the combining dot above (U+0307).
\<close>

definition ucd_sample :: lower_table where
  "ucd_sample before c after =
     (if c = 0xC9 then [0xE9] else if c = 0x130 then [0x69, 0x307] else [c])"

definition cand_a :: candidate where
  "cand_a = \<lparr> c_id = S ''tournament_upcoming_0_1793782800'',
      c_extraction_method = S ''nttb_scraper_v2'',
      c_timestamp = S ''2026-11-04T09:00:00'',
      c_source = S ''upcoming'',
      c_name = Some (S ''NK Tafeltennis''),
      c_tournament_url = None, c_tournament_id = None,
      c_location = Some (S ''Rotterdam''),
      c_date = Some (S ''9 nov''),
      c_start_date = Some (S ''2026-11-09''),
      c_end_date = None, c_categories = None,
      c_registration_available = False,
      c_registration_url = None, c_registration_deadline = None,
      c_registration_status = None,
      c_hash = S ''015227a060ea2593f9ab42fcd3ab0257'' \<rparr>"

definition cand_b :: candidate where
  "cand_b = cand_a \<lparr> c_id := S ''tournament_recent_0_1793782800'', c_source := S ''recent'',
      c_name := Some (S ''Open Delft''), c_location := Some (S ''Delft''), c_date := Some (S ''14 dec''),
      c_start_date := Some (S ''2026-12-14''), c_hash := S ''bf4a2f186c2dd021673a8467e42c1039'' \<rparr>"

definition cand_c :: candidate where
  "cand_c = cand_a \<lparr> c_id := S ''tournament_upcoming_2_1793782800'',
      c_name := Some (S ''Clubkampioenschap''), c_location := None, c_date := None,
      c_start_date := None, c_hash := S ''4df9b7e513c5caa6ea08a17a4442f870'' \<rparr>"

definition example_now :: pydatetime where
  "example_now = \<lparr> dt_year = 2026, dt_month = 11, dt_day = 4, dt_hour = 12, dt_minute = 0,
      dt_second = 0, dt_microsecond = 0 \<rparr>"

text \<open>A table with start dates five days ahead, forty days ahead, and none.\<close>

definition example_rows :: "row list" where
  "example_rows =
     [insert_row (S ''2026-11-04 09:00:00'') cand_a (S ''NK Tafeltennis''),
      insert_row (S ''2026-11-04 09:00:00'') cand_b (S ''Open Delft''),
      insert_row (S ''2026-11-04 09:00:00'') cand_c (S ''Clubkampioenschap'')]"

definition store_a :: "row list" where
  "store_a =
     [insert_row (S ''2026-11-03 09:00:00'')
        (cand_a\<lparr> c_date := Some (S ''maandag''), c_registration_available := True \<rparr>)
        (S ''NK Tafeltennis'')]"

definition example_item :: html where
  "example_item =
     Tag (S ''li'') [(S ''class'', S ''list__item'')]
       [Tag (S ''h4'') [(S ''class'', S ''media__title'')]
          [Tag (S ''a'') [(S ''href'', S ''/sport/tournament?id=ABC-123'')]
             [Tag (S ''span'') [(S ''class'', S ''nav-link__value'')] [Text (S ''  NK Tafeltennis '')]]],
        Tag (S ''small'') [(S ''class'', S ''media__subheading'')]
          [Tag (S ''span'') [(S ''class'', S ''nav-link__value'')] [Text (S ''NTTB | Rotterdam'')]],
        Tag (S ''small'') [(S ''class'', S ''media__subheading'')]
          [Tag (S ''time'') [(S ''datetime'', S ''2026-11-09'')] [Text (S ''9 nov'')]],
        Tag (S ''a'') [(S ''href'', S ''/inschrijven?id=ABC-123'')] [Text (S ''Inschrijving gesloten'')]]"

definition example_consent :: html where
  "example_consent =
     Tag (S ''li'') [(S ''class'', S ''list__item'')]
       [Tag (S ''h4'') [(S ''class'', S ''media__title'')] [Text (S ''Voorkeuren'')],
        Tag (S ''input'') [(S ''type'', S ''checkbox'')] []]"

definition example_advert :: html where
  "example_advert =
     Tag (S ''li'') [(S ''class'', S ''list__item'')]
       [Tag (S ''h4'') [(S ''class'', S ''media__title'')] [Text (S ''Aanbieding'')],
        Tag (S ''div'') [(S ''class'', S ''ad banner'')] []]"

definition example_soup :: html where
  "example_soup = Tag (S ''ul'') [] [example_consent, example_item, example_advert]"

definition example_candidate :: candidate where
  "example_candidate =
     \<lparr> c_id = S ''tournament_upcoming_0_1793782800'',
       c_extraction_method = S ''nttb_scraper_v2'',
       c_timestamp = S ''2026-11-04T12:00:00'',
       c_source = S ''upcoming'',
       c_name = Some (S ''NK Tafeltennis''),
       c_tournament_url = Some (S ''https://nttb.toernooi.nl/sport/tournament?id=ABC-123''),
       c_tournament_id = Some (S ''ABC-123''),
       c_location = Some (S ''Rotterdam''),
       c_date = Some (S ''9 nov''),
       c_start_date = Some (S ''2026-11-09''),
       c_end_date = None, c_categories = None,
       c_registration_available = False,
       c_registration_url = Some (S ''https://nttb.toernooi.nl/inschrijven?id=ABC-123''),
       c_registration_deadline = None,
       c_registration_status = Some (S ''closed''),
       c_hash = S ''015227a060ea2593f9ab42fcd3ab0257'' \<rparr>"

definition cand_a_recent :: candidate where
  "cand_a_recent = cand_a \<lparr> c_id := S ''tournament_recent_4_1793782800'', c_source := S ''recent'',
      c_name := Some (S ''NK TAFELTENNIS''), c_location := Some (S ''ROTTERDAM''),
      c_hash := S ''024e8403a47b72edc2aec02af5904e7e'' \<rparr>"

text \<open>The first candidate with its name in lower case.\<close>

definition cand_a_lower :: candidate where
  "cand_a_lower = cand_a \<lparr> c_name := Some (S ''nk tafeltennis''),
      c_hash := S ''b1b9252be554ff333c14a6995b2297ff'' \<rparr>"

definition example_item_recent :: html where
  "example_item_recent =
     Tag (S ''li'') [(S ''class'', S ''list__item'')]
       [Tag (S ''h4'') [(S ''class'', S ''media__title'')]
          [Tag (S ''span'') [(S ''class'', S ''nav-link__value'')] [Text (S ''NK Tafeltennis'')]],
        Tag (S ''small'') [(S ''class'', S ''media__subheading'')]
          [Tag (S ''span'') [(S ''class'', S ''nav-link__value'')] [Text (S '' NTTB |   Rotterdam  '')]],
        Tag (S ''small'') [(S ''class'', S ''media__subheading'')]
          [Tag (S ''time'') [(S ''datetime'', S ''2026-11-09'')] [Text (S ''maandag 9 november'')]]]"

text \<open>
  The first item again, with whitespace (a line break, tabs, a no-break space) put
  around its texts.
\<close>

definition example_item_spaced :: html where
  "example_item_spaced =
     Tag (S ''li'') [(S ''class'', S ''list__item'')]
       [Tag (S ''h4'') [(S ''class'', S ''media__title'')]
          [Tag (S ''a'') [(S ''href'', S ''/sport/tournament?id=ABC-123'')]
             [Tag (S ''span'') [(S ''class'', S ''nav-link__value'')]
                [Text ([0x0A, 0x09] @ S ''NK Tafeltennis'' @ [0xA0, 0x0A])]]],
        Tag (S ''small'') [(S ''class'', S ''media__subheading'')]
          [Tag (S ''span'') [(S ''class'', S ''nav-link__value'')]
             [Text (S ''   NTTB | Rotterdam'' @ [0xA0])]],
        Tag (S ''small'') [(S ''class'', S ''media__subheading'')]
          [Tag (S ''time'') [(S ''datetime'', S ''2026-11-09'')] [Text (S '' 9 nov '')]],
        Tag (S ''a'') [(S ''href'', S ''/inschrijven?id=ABC-123'')]
          [Text (S ''Inschrijving gesloten '')]]"

text \<open>The first candidate with two spaces inside its name.\<close>

definition cand_a_spaced :: candidate where
  "cand_a_spaced = cand_a \<lparr> c_name := Some (S ''NK  Tafeltennis''),
      c_hash := S ''4b4960f67e2cbe8740697d0dd4f0ef68'' \<rparr>"

text \<open>
  An item whose text is six times U+0130, 88 times \<^verbatim>\<open>x\<close> and then \<^verbatim>\<open>cookie\<close>: 100
  characters, 106 once lower-cased.
\<close>

definition dotted_item :: html where
  "dotted_item =
     Tag (S ''li'') [(S ''class'', S ''list__item'')]
       [Tag (S ''h4'') [(S ''class'', S ''media__title'')]
          [Tag (S ''span'') [(S ''class'', S ''nav-link__value'')]
             [Text (replicate 6 0x130 @ replicate 88 (cp (CHR ''x'')) @ S ''cookie'')]]]"

text \<open>
  An event in Delft whose name has an accented letter, \<^verbatim>\<open>Caf\<close> + U+00E9 + \<^verbatim>\<open> Open\<close>,
  as one tab has it, and in capitals with a no-break space behind the date
  attribute, as the other tab has it.
\<close>

definition cand_cafe :: candidate where
  "cand_cafe = cand_a \<lparr> c_id := S ''tournament_upcoming_1_1793782800'',
      c_name := Some (S ''Caf'' @ [0xE9] @ S '' Open''), c_location := Some (S ''Delft''),
      c_hash := S ''a49ba9139ff3896c888949227265aec9'' \<rparr>"

definition cand_cafe_recent :: candidate where
  "cand_cafe_recent = cand_a \<lparr> c_id := S ''tournament_recent_5_1793782800'',
      c_source := S ''recent'',
      c_name := Some (S ''CAF'' @ [0xC9] @ S '' OPEN''), c_location := Some (S ''DELFT''),
      c_start_date := Some (S ''2026-11-09'' @ [0xA0]),
      c_hash := S ''a0ad8142a6ab9bfc90ca1a3bb5a28365'' \<rparr>"

text \<open>
  The first candidate with a time of day in its start date, as one tab has it, and
  with the \<^verbatim>\<open>T\<close> of the date in lower case, as the other tab has it.
\<close>

definition cand_timed :: candidate where
  "cand_timed = cand_a \<lparr> c_start_date := Some (S ''2026-11-09T10:00:00''),
      c_hash := S ''99ad20710b464ddf8743a43b807333bc'' \<rparr>"

definition cand_timed_recent :: candidate where
  "cand_timed_recent = cand_a \<lparr> c_id := S ''tournament_recent_6_1793782800'',
      c_source := S ''recent'', c_start_date := Some (S ''2026-11-09t10:00:00''),
      c_hash := S ''f180a99cc001b9801e60625fc6d8666f'' \<rparr>"

definition scrape_time :: pydatetime where
  "scrape_time = \<lparr> dt_year = 2026, dt_month = 10, dt_day = 21, dt_hour = 23, dt_minute = 0,
      dt_second = 0, dt_microsecond = 0 \<rparr>"

definition sweep_time :: pydatetime where
  "sweep_time = \<lparr> dt_year = 2026, dt_month = 11, dt_day = 4, dt_hour = 0, dt_minute = 30,
      dt_second = 0, dt_microsecond = 0 \<rparr>"

definition retention_rows :: "row list" where
  "retention_rows =
     [insert_row (S ''2026-11-04 09:00:00'') (cand_b\<lparr> c_end_date := Some (S ''2026-10-25T12:00:00'') \<rparr>) (S ''A''),
      insert_row (S ''2026-11-04 09:00:00'') (cand_b\<lparr> c_end_date := Some (S ''2026-11-01T12:00:00'') \<rparr>) (S ''B''),
      insert_row (S ''2026-11-04 09:00:00'') (cand_b\<lparr> c_start_date := Some (S ''2026-10-25T12:00:00'') \<rparr>) (S ''C''),
      insert_row (S ''2026-11-04 09:00:00'') (cand_b\<lparr> c_start_date := Some (S ''2026-11-01T12:00:00'') \<rparr>) (S ''D'')]"

section \<open>Properties of reconciliation\<close>

lemma update_row_hash: "r_hash (update_row ts c n r) = r_hash r"
  by (simp add: update_row_def)

lemma update_row_active: "r_is_active (update_row ts c n r) = r_is_active r"
  by (simp add: update_row_def)

lemma matches_update_row: "matches h (update_row ts c n r) = matches h r"
  by (simp add: matches_def update_row_hash update_row_active)

lemma has_active_map_update: "has_active (map (update_row ts c n) rows) h = has_active rows h"
  by (simp add: has_active_def list_ex_iff matches_update_row)

lemma has_active_append: "has_active (rows @ [r]) h = (has_active rows h \<or> matches h r)"
  by (auto simp: has_active_def list_ex_iff)

lemma matches_insert_row: "matches h (insert_row ts c n) = (h = c_hash c)"
  by (auto simp: matches_def insert_row_def)

lemma active_hashes_map_update: "active_hashes (map (update_row ts c n) rows) = active_hashes rows"
  by (induction rows)
    (simp_all add: active_hashes_def update_row_hash update_row_active split: option.splits)

lemma active_hashes_append_insert:
  "active_hashes (rows @ [insert_row ts c n]) = active_hashes rows @ [c_hash c]"
  by (simp add: active_hashes_def insert_row_def)

lemma set_active_hashes: "h \<in> set (active_hashes rows) = has_active rows h"
  by (induction rows) (auto simp: active_hashes_def has_active_def matches_def split: option.splits)

lemma save_loop_distinct:
  "distinct (active_hashes rows) \<Longrightarrow> save_loop rows k ps = Inr (rows', k')
   \<Longrightarrow> distinct (active_hashes rows')"
proof (induction ps arbitrary: rows k)
  case Nil
  then show ?case by simp
next
  case (Cons p ps)
  obtain ts c where p: "p = (ts, c)" by (cases p)
  show ?case
  proof (cases "c_name c")
    case None
    with Cons.prems p show ?thesis by simp
  next
    case (Some n)
    show ?thesis
    proof (cases "has_active rows (c_hash c)")
      case True
      with Cons.prems p Some
      have "save_loop (map (update_row ts c n) rows) k ps = Inr (rows', k')" by simp
      moreover have "distinct (active_hashes (map (update_row ts c n) rows))"
        using Cons.prems(1) by (simp add: active_hashes_map_update)
      ultimately show ?thesis by (rule Cons.IH[rotated])
    next
      case False
      with Cons.prems p Some
      have run: "save_loop (rows @ [insert_row ts c n]) (k + 1) ps = Inr (rows', k')"
        by (simp split: if_splits)
      have "distinct (active_hashes (rows @ [insert_row ts c n]))"
        using Cons.prems(1) False
        by (simp add: active_hashes_append_insert set_active_hashes)
      then show ?thesis using run by (rule Cons.IH)
    qed
  qed
qed

lemma save_loop_length:
  "save_loop rows k ps = Inr (rows', k') \<Longrightarrow> length rows' + k = length rows + k' \<and> k \<le> k'"
proof (induction ps arbitrary: rows k)
  case Nil
  then show ?case by auto
next
  case (Cons p ps)
  obtain ts c where p: "p = (ts, c)" by (cases p)
  from Cons.prems p obtain n where n: "c_name c = Some n" by (cases "c_name c") auto
  show ?case
  proof (cases "has_active rows (c_hash c)")
    case True
    with Cons.prems p n
    have "save_loop (map (update_row ts c n) rows) k ps = Inr (rows', k')" by simp
    from Cons.IH[OF this] show ?thesis by simp
  next
    case False
    with Cons.prems p n
    have "save_loop (rows @ [insert_row ts c n]) (k + 1) ps = Inr (rows', k')"
      by (simp split: if_splits)
    from Cons.IH[OF this] show ?thesis by simp
  qed
qed

lemma replay_hash: "r_hash (replay p r) = r_hash r"
  by (simp add: replay_def update_row_hash split: option.splits)

lemma replay_active: "r_is_active (replay p r) = r_is_active r"
  by (simp add: replay_def update_row_active split: option.splits)

lemma matches_replay: "matches h (replay p r) = matches h r"
  by (simp add: matches_def replay_hash replay_active)

lemma matches_fold_replay: "matches h (fold replay ps r) = matches h r"
  by (induction ps arbitrary: r) (simp_all add: matches_replay)

lemma update_row_absorb:
  "matches (c_hash c) x \<Longrightarrow> update_row ts c n (replay p x) = update_row ts c n x"
  by (cases "c_name (snd p)") (auto simp: replay_def update_row_def matches_def)

lemma update_row_absorb_fold:
  "matches (c_hash c) x \<Longrightarrow> update_row ts c n (fold replay ps x) = update_row ts c n x"
proof (induction ps arbitrary: x)
  case Nil
  then show ?case by simp
next
  case (Cons p ps)
  have "matches (c_hash c) (replay p x)" using Cons.prems by (simp add: matches_replay)
  then have "update_row ts c n (fold replay ps (replay p x)) = update_row ts c n (replay p x)"
    by (rule Cons.IH)
  then show ?case using Cons.prems by (simp add: update_row_absorb)
qed

lemma update_row_idem: "update_row ts c n (update_row ts c n x) = update_row ts c n x"
  by (auto simp: update_row_def matches_def)

lemma update_row_no_match: "\<not> matches (c_hash c) x \<Longrightarrow> update_row ts c n x = x"
  by (simp add: update_row_def)

lemma update_row_insert_row: "update_row ts c n (insert_row ts c n) = insert_row ts c n"
  by (simp add: update_row_def insert_row_def matches_def)

lemma save_loop_fixpoint:
  "\<forall>r\<in>set rows. fold replay prev r = r \<Longrightarrow> save_loop rows k ps = Inr (rows', k')
   \<Longrightarrow> \<forall>r\<in>set rows'. fold replay (prev @ ps) r = r"
proof (induction ps arbitrary: rows k prev)
  case Nil
  then show ?case by simp
next
  case (Cons p ps)
  obtain ts c where p: "p = (ts, c)" by (cases p)
  from Cons.prems p obtain n where n: "c_name c = Some n" by (cases "c_name c") auto
  have rp: "\<And>x. replay p x = update_row ts c n x" by (simp add: replay_def p n)
  show ?case
  proof (cases "has_active rows (c_hash c)")
    case True
    with Cons.prems p n
    have run: "save_loop (map (update_row ts c n) rows) k ps = Inr (rows', k')" by simp
    have "\<forall>r\<in>set (map (update_row ts c n) rows). fold replay (prev @ [p]) r = r"
    proof
      fix r assume "r \<in> set (map (update_row ts c n) rows)"
      then obtain x where x: "x \<in> set rows" "r = update_row ts c n x" by auto
      have fx: "fold replay prev x = x" using Cons.prems(1) x(1) by simp
      show "fold replay (prev @ [p]) r = r"
      proof (cases "matches (c_hash c) x")
        case True
        then have "matches (c_hash c) r" by (simp add: x(2) matches_update_row)
        then have "update_row ts c n (fold replay prev r) = update_row ts c n r"
          by (rule update_row_absorb_fold)
        then show ?thesis by (simp add: rp x(2) update_row_idem)
      next
        case False
        then have "r = x" by (simp add: x(2) update_row_no_match)
        then show ?thesis using fx False by (simp add: rp update_row_no_match)
      qed
    qed
    from Cons.IH[OF this run] show ?thesis by simp
  next
    case False
    with Cons.prems p n
    have run: "save_loop (rows @ [insert_row ts c n]) (k + 1) ps = Inr (rows', k')"
      by (simp split: if_splits)
    have "\<forall>r\<in>set (rows @ [insert_row ts c n]). fold replay (prev @ [p]) r = r"
    proof
      fix r assume "r \<in> set (rows @ [insert_row ts c n])"
      then consider "r \<in> set rows" | "r = insert_row ts c n" by auto
      then show "fold replay (prev @ [p]) r = r"
      proof cases
        case 1
        then have "\<not> matches (c_hash c) r" using False by (auto simp: has_active_def list_ex_iff)
        moreover have "fold replay prev r = r" using Cons.prems(1) 1 by simp
        ultimately show ?thesis by (simp add: rp update_row_no_match)
      next
        case 2
        have "matches (c_hash c) r" by (simp add: 2 matches_insert_row)
        then have "update_row ts c n (fold replay prev r) = update_row ts c n r"
          by (rule update_row_absorb_fold)
        then show ?thesis by (simp add: rp 2 update_row_insert_row)
      qed
    qed
    from Cons.IH[OF this run] show ?thesis by simp
  qed
qed

lemma save_loop_keeps_active:
  "save_loop rows k ps = Inr (rows', k') \<Longrightarrow> has_active rows h \<Longrightarrow> has_active rows' h"
proof (induction ps arbitrary: rows k)
  case Nil
  then show ?case by simp
next
  case (Cons p ps)
  obtain ts c where p: "p = (ts, c)" by (cases p)
  from Cons.prems p obtain n where n: "c_name c = Some n" by (cases "c_name c") auto
  show ?case
  proof (cases "has_active rows (c_hash c)")
    case True
    with Cons.prems p n
    have "save_loop (map (update_row ts c n) rows) k ps = Inr (rows', k')" by simp
    moreover have "has_active (map (update_row ts c n) rows) h"
      using Cons.prems(2) by (simp add: has_active_map_update)
    ultimately show ?thesis by (rule Cons.IH)
  next
    case False
    with Cons.prems p n
    have "save_loop (rows @ [insert_row ts c n]) (k + 1) ps = Inr (rows', k')"
      by (simp split: if_splits)
    moreover have "has_active (rows @ [insert_row ts c n]) h"
      using Cons.prems(2) by (simp add: has_active_append)
    ultimately show ?thesis by (rule Cons.IH)
  qed
qed

lemma save_loop_all_active:
  "save_loop rows k ps = Inr (rows', k') \<Longrightarrow> p \<in> set ps
   \<Longrightarrow> has_active rows' (c_hash (snd p)) \<and> c_name (snd p) \<noteq> None"
proof (induction ps arbitrary: rows k)
  case Nil
  then show ?case by simp
next
  case (Cons q ps)
  obtain ts c where q: "q = (ts, c)" by (cases q)
  from Cons.prems q obtain n where n: "c_name c = Some n" by (cases "c_name c") auto
  define rows1 where "rows1 = (if has_active rows (c_hash c) then map (update_row ts c n) rows
     else rows @ [insert_row ts c n])"
  define k1 where "k1 = (if has_active rows (c_hash c) then k else k + 1)"
  have run: "save_loop rows1 k1 ps = Inr (rows', k')"
    using Cons.prems(1) q n by (simp add: rows1_def k1_def split: if_splits)
  have act: "has_active rows1 (c_hash c)"
    by (simp add: rows1_def has_active_map_update has_active_append matches_insert_row)
  show ?case
  proof (cases "p = q")
    case True
    then show ?thesis using save_loop_keeps_active[OF run act] q n by simp
  next
    case False
    then have "p \<in> set ps" using Cons.prems(2) by simp
    with run show ?thesis by (rule Cons.IH)
  qed
qed

lemma save_loop_all_updates:
  "\<forall>p\<in>set ps. has_active rows (c_hash (snd p)) \<and> c_name (snd p) \<noteq> None
   \<Longrightarrow> save_loop rows k ps = Inr (map (fold replay ps) rows, k)"
proof (induction ps arbitrary: rows)
  case Nil
  then show ?case by simp
next
  case (Cons p ps)
  obtain ts c where p: "p = (ts, c)" by (cases p)
  from Cons.prems p obtain n where n: "c_name c = Some n" by auto
  have act: "has_active rows (c_hash c)" using Cons.prems p by simp
  have rp: "replay (ts, c) = update_row ts c n" by (rule ext) (simp add: replay_def n)
  have "\<forall>q\<in>set ps. has_active (map (update_row ts c n) rows) (c_hash (snd q)) \<and> c_name (snd q) \<noteq> None"
    using Cons.prems by (simp add: has_active_map_update)
  then have "save_loop (map (update_row ts c n) rows) k ps
     = Inr (map (fold replay ps) (map (update_row ts c n) rows), k)"
    by (rule Cons.IH)
  then show ?case using act n p by (simp add: rp comp_def)
qed

lemma without_scraped_at_eqD:
  "without_scraped_at r = without_scraped_at r' \<Longrightarrow> r' = r\<lparr> r_scraped_at := r_scraped_at r' \<rparr>"
  by (cases r, cases r') (simp add: without_scraped_at_def)

lemma without_scraped_at_replay:
  "without_scraped_at r = without_scraped_at r' \<Longrightarrow> snd p = snd p'
   \<Longrightarrow> without_scraped_at (replay p r) = without_scraped_at (replay p' r')"
proof -
  assume e: "without_scraped_at r = without_scraped_at r'" and s: "snd p = snd p'"
  from e obtain t where r': "r' = r\<lparr> r_scraped_at := t \<rparr>"
    using without_scraped_at_eqD by blast
  show ?thesis
    unfolding r'
    by (simp add: replay_def update_row_def matches_def without_scraped_at_def s
         split: option.splits)
qed

lemma without_scraped_at_fold:
  "map snd ps = map snd ps' \<Longrightarrow> without_scraped_at r = without_scraped_at r'
   \<Longrightarrow> without_scraped_at (fold replay ps r) = without_scraped_at (fold replay ps' r')"
proof (induction ps arbitrary: ps' r r')
  case Nil
  then show ?case by simp
next
  case (Cons p ps)
  then obtain p' qs where ps': "ps' = p' # qs" "snd p = snd p'" "map snd ps = map snd qs"
    by (cases ps') auto
  have "without_scraped_at (replay p r) = without_scraped_at (replay p' r')"
    using Cons.prems(2) ps'(2) by (rule without_scraped_at_replay)
  with ps'(3) have "without_scraped_at (fold replay ps (replay p r))
      = without_scraped_at (fold replay qs (replay p' r'))"
    by (rule Cons.IH)
  then show ?case by (simp add: ps'(1))
qed

lemma fold_replay_active: "r_is_active (fold replay ps r) = r_is_active r"
  by (induction ps arbitrary: r) (simp_all add: replay_active)

lemma active_count_map:
  "(\<And>r. r_is_active (f r) = r_is_active r) \<Longrightarrow> active_count (map f rows) = active_count rows"
  by (induction rows) (simp_all add: active_count_def)

lemma map_snd_stamped: "map snd (stamped clock ts) = ts"
  by (simp add: stamped_def)

lemma save_again:
  assumes run1: "save_tournaments_to_db clock1 rows tournaments = Inr (rows1, n1)"
  shows "\<exists>rows2. save_tournaments_to_db clock2 rows1 tournaments = Inr (rows2, 0)
           \<and> length rows2 = length rows1
           \<and> active_count rows2 = active_count rows1
           \<and> map without_scraped_at rows2 = map without_scraped_at rows1
           \<and> (clock2 = clock1 \<longrightarrow> rows2 = rows1)"
proof -
  define ps1 where "ps1 = stamped clock1 tournaments"
  define ps2 where "ps2 = stamped clock2 tournaments"
  have loop1: "save_loop rows 0 ps1 = Inr (rows1, n1)"
    using run1 by (simp add: save_tournaments_to_db_def ps1_def)
  have snd_eq: "map snd ps2 = map snd ps1"
    by (simp add: ps1_def ps2_def map_snd_stamped)
  have ready: "\<forall>p\<in>set ps2. has_active rows1 (c_hash (snd p)) \<and> c_name (snd p) \<noteq> None"
  proof
    fix p assume "p \<in> set ps2"
    then have "snd p \<in> set (map snd ps1)" using snd_eq by (metis imageI set_map)
    then obtain q where q: "q \<in> set ps1" "snd q = snd p" by auto
    from save_loop_all_active[OF loop1 q(1)] q(2)
    show "has_active rows1 (c_hash (snd p)) \<and> c_name (snd p) \<noteq> None" by simp
  qed
  define rows2 where "rows2 = map (fold replay ps2) rows1"
  have loop2: "save_loop rows1 0 ps2 = Inr (rows2, 0)"
    unfolding rows2_def using ready by (rule save_loop_all_updates)
  have fix1: "\<forall>r\<in>set rows1. fold replay ps1 r = r"
    using save_loop_fixpoint[of rows "[]" 0 ps1 rows1 n1] loop1 by simp
  have "map without_scraped_at rows2 = map without_scraped_at rows1"
  proof -
    have "without_scraped_at (fold replay ps2 r) = without_scraped_at r" if "r \<in> set rows1" for r
    proof -
      have "without_scraped_at (fold replay ps2 r) = without_scraped_at (fold replay ps1 r)"
        using snd_eq by (rule without_scraped_at_fold) simp
      then show ?thesis using fix1 that by simp
    qed
    then show ?thesis by (simp add: rows2_def)
  qed
  moreover have "active_count rows2 = active_count rows1"
    unfolding rows2_def by (rule active_count_map) (rule fold_replay_active)
  moreover have "rows2 = rows1" if "clock2 = clock1"
  proof -
    have "ps2 = ps1" using that by (simp add: ps1_def ps2_def)
    then show ?thesis using fix1 by (simp add: rows2_def map_idI)
  qed
  moreover have "length rows2 = length rows1" by (simp add: rows2_def)
  ultimately show ?thesis
    using loop2 by (simp add: save_tournaments_to_db_def ps2_def)
qed

lemma without_scraped_at_fields:
  "without_scraped_at r = without_scraped_at r'
   \<Longrightarrow> r_hash r = r_hash r' \<and> r_is_active r = r_is_active r' \<and> r_id r = r_id r'"
proof -
  assume e: "without_scraped_at r = without_scraped_at r'"
  have "r_hash (without_scraped_at r) = r_hash (without_scraped_at r')"
    "r_is_active (without_scraped_at r) = r_is_active (without_scraped_at r')"
    "r_id (without_scraped_at r) = r_id (without_scraped_at r')"
    using e by simp_all
  then show ?thesis by (simp add: without_scraped_at_def)
qed

lemma without_scraped_at_matches:
  "without_scraped_at r = without_scraped_at r' \<Longrightarrow> matches h r = matches h r'"
  by (drule without_scraped_at_fields) (simp add: matches_def)

lemma without_scraped_at_has_active:
  "map without_scraped_at rows = map without_scraped_at rows'
   \<Longrightarrow> has_active rows h = has_active rows' h"
proof (induction rows arbitrary: rows')
  case Nil
  then show ?case by simp
next
  case (Cons r rows)
  then obtain r' rest where rows': "rows' = r' # rest"
    and r: "without_scraped_at r = without_scraped_at r'"
    and rest: "map without_scraped_at rows = map without_scraped_at rest"
    by (cases rows') auto
  from Cons.IH[OF rest] without_scraped_at_matches[OF r, of h] show ?case
    by (simp add: rows' has_active_def)
qed

lemma without_scraped_at_ids:
  "map without_scraped_at rows = map without_scraped_at rows' \<Longrightarrow> map r_id rows = map r_id rows'"
proof (induction rows arbitrary: rows')
  case Nil
  then show ?case by simp
next
  case (Cons r rows)
  then obtain r' rest where rows': "rows' = r' # rest"
    and r: "without_scraped_at r = without_scraped_at r'"
    and rest: "map without_scraped_at rows = map without_scraped_at rest"
    by (cases rows') auto
  from Cons.IH[OF rest] without_scraped_at_fields[OF r] show ?case by (simp add: rows')
qed

lemma without_scraped_at_update_row:
  "without_scraped_at r = without_scraped_at r'
   \<Longrightarrow> without_scraped_at (update_row ts c n r) = without_scraped_at (update_row ts' c n r')"
proof -
  assume "without_scraped_at r = without_scraped_at r'"
  then obtain t where r': "r' = r\<lparr> r_scraped_at := t \<rparr>"
    using without_scraped_at_eqD by blast
  show ?thesis
    unfolding r' by (simp add: update_row_def matches_def without_scraped_at_def)
qed

lemma without_scraped_at_insert_row:
  "without_scraped_at (insert_row ts c n) = without_scraped_at (insert_row ts' c n)"
  by (simp add: without_scraped_at_def insert_row_def)

lemma without_scraped_at_map_update:
  "map without_scraped_at rows = map without_scraped_at rows'
   \<Longrightarrow> map without_scraped_at (map (update_row ts c n) rows)
       = map without_scraped_at (map (update_row ts' c n) rows')"
proof (induction rows arbitrary: rows')
  case Nil
  then show ?case by simp
next
  case (Cons r rows)
  then obtain r' rest where rows': "rows' = r' # rest"
    and r: "without_scraped_at r = without_scraped_at r'"
    and rest: "map without_scraped_at rows = map without_scraped_at rest"
    by (cases rows') auto
  have "without_scraped_at (update_row ts c n r) = without_scraped_at (update_row ts' c n r')"
    using r by (rule without_scraped_at_update_row)
  with Cons.IH[OF rest] show ?case by (simp add: rows')
qed

lemma save_loop_error_any_clock:
  "map snd ps = map snd ps' \<Longrightarrow> map without_scraped_at rows = map without_scraped_at rows'
   \<Longrightarrow> save_loop rows k ps = Inl e \<Longrightarrow> save_loop rows' k ps' = Inl e"
proof (induction ps arbitrary: ps' rows rows' k)
  case Nil
  then show ?case by simp
next
  case (Cons p ps)
  obtain ts c where p: "p = (ts, c)" by (cases p)
  from Cons.prems(1) p obtain ts' qs where ps': "ps' = (ts', c) # qs" and qs: "map snd ps = map snd qs"
    by (cases ps') auto
  note run = Cons.prems(3)[unfolded p]
  show ?case
  proof (cases "c_name c")
    case None
    then show ?thesis using run by (simp add: ps')
  next
    case (Some n)
    have act: "has_active rows' (c_hash c) = has_active rows (c_hash c)"
      using Cons.prems(2) by (rule without_scraped_at_has_active[symmetric])
    have ids: "map r_id rows' = map r_id rows"
      using Cons.prems(2) by (rule without_scraped_at_ids[symmetric])
    show ?thesis
    proof (cases "has_active rows (c_hash c)")
      case True
      have next_rows: "map without_scraped_at (map (update_row ts c n) rows)
          = map without_scraped_at (map (update_row ts' c n) rows')"
        using Cons.prems(2) by (rule without_scraped_at_map_update)
      have "save_loop (map (update_row ts c n) rows) k ps = Inl e"
        using run Some True by simp
      with qs next_rows have "save_loop (map (update_row ts' c n) rows') k qs = Inl e"
        by (rule Cons.IH)
      then show ?thesis by (simp add: ps' Some act True)
    next
      case False
      note inactive = False
      have inactive': "\<not> has_active rows' (c_hash c)" using inactive act by simp
      show ?thesis
      proof (cases "c_id c \<in> set (map r_id rows)")
        case True
        note dup = True
        have dup': "c_id c \<in> set (map r_id rows')" using dup by (simp only: ids)
        have "save_loop rows k ((ts, c) # ps) = Inl IntegrityError"
          using Some inactive dup by (simp del: set_map)
        with run have "e = IntegrityError" by simp
        moreover have "save_loop rows' k ((ts', c) # qs) = Inl IntegrityError"
          using Some inactive' dup' by (simp del: set_map)
        ultimately show ?thesis by (simp only: ps')
      next
        case False
        note nodup = False
        have nodup': "c_id c \<notin> set (map r_id rows')" unfolding ids by (rule nodup)
        have next_rows: "map without_scraped_at (rows @ [insert_row ts c n])
            = map without_scraped_at (rows' @ [insert_row ts' c n])"
          using Cons.prems(2) without_scraped_at_insert_row[of ts c n ts'] by simp
        have "save_loop rows k ((ts, c) # ps) = save_loop (rows @ [insert_row ts c n]) (k + 1) ps"
          using Some inactive nodup by (simp del: set_map)
        with run have "save_loop (rows @ [insert_row ts c n]) (k + 1) ps = Inl e" by simp
        with qs next_rows have "save_loop (rows' @ [insert_row ts' c n]) (k + 1) qs = Inl e"
          by (rule Cons.IH)
        moreover have "save_loop rows' k ((ts', c) # qs)
            = save_loop (rows' @ [insert_row ts' c n]) (k + 1) qs"
          using Some inactive' nodup' by (simp del: set_map)
        ultimately show ?thesis by (simp only: ps')
      qed
    qed
  qed
qed

text \<open>
  Claim C3 (idempotent upsert).  When \<^verbatim>\<open>_save_tournaments_to_db\<close> has stored a
  candidate list, storing the same list again, from the store the first run left,
  succeeds, inserts no row (its count of new rows is 0), leaves the number of
  rows and of active rows unchanged, and leaves every column of every row as it
  was, \<^verbatim>\<open>scraped_at\<close> apart, which the second run refreshes; when the clock reads the
  same in both runs the store is unchanged altogether.  When the first run raises,
  nothing is committed, and a second run from the same store raises as well.
\<close>

theorem save_twice_same_rows:
  "case save_tournaments_to_db clock1 rows tournaments of
     Inl e \<Rightarrow> save_tournaments_to_db clock2 rows tournaments = Inl e
   | Inr (rows1, n1) \<Rightarrow>
       (\<exists>rows2. save_tournaments_to_db clock2 rows1 tournaments = Inr (rows2, 0)
           \<and> length rows2 = length rows1
           \<and> active_count rows2 = active_count rows1
           \<and> map without_scraped_at rows2 = map without_scraped_at rows1
           \<and> (clock2 = clock1 \<longrightarrow> rows2 = rows1))"
proof (cases "save_tournaments_to_db clock1 rows tournaments")
  case (Inl e)
  then have "save_loop rows 0 (stamped clock1 tournaments) = Inl e"
    by (simp add: save_tournaments_to_db_def)
  moreover have "map snd (stamped clock1 tournaments) = map snd (stamped clock2 tournaments)"
    by (simp add: map_snd_stamped)
  ultimately have "save_loop rows 0 (stamped clock2 tournaments) = Inl e"
    using save_loop_error_any_clock[of "stamped clock1 tournaments" "stamped clock2 tournaments"
        rows rows 0 e] by simp
  then show ?thesis using Inl by (simp add: save_tournaments_to_db_def)
next
  case (Inr res)
  obtain rows1 n1 where res: "res = (rows1, n1)" by (cases res)
  from save_again[OF Inr[unfolded res], of clock2] show ?thesis
    by (simp add: Inr res)
qed

theorem save_twice_same_rows_witness:
  "save_tournaments_to_db (\<lambda>k. (S ''2026-11-04 09:00:00'')) [] [cand_a, cand_b]
     = Inr ([insert_row (S ''2026-11-04 09:00:00'') cand_a (S ''NK Tafeltennis''),
             insert_row (S ''2026-11-04 09:00:00'') cand_b (S ''Open Delft'')], 2)
   \<and> (\<exists>rows2. save_tournaments_to_db (\<lambda>k. (S ''2026-11-04 09:00:00''))
          [insert_row (S ''2026-11-04 09:00:00'') cand_a (S ''NK Tafeltennis''),
             insert_row (S ''2026-11-04 09:00:00'') cand_b (S ''Open Delft'')] [cand_a, cand_b] = Inr (rows2, 0)
        \<and> rows2 = [insert_row (S ''2026-11-04 09:00:00'') cand_a (S ''NK Tafeltennis''),
             insert_row (S ''2026-11-04 09:00:00'') cand_b (S ''Open Delft'')])"
proof -
  have run1: "save_tournaments_to_db (\<lambda>k. (S ''2026-11-04 09:00:00'')) [] [cand_a, cand_b]
     = Inr ([insert_row (S ''2026-11-04 09:00:00'') cand_a (S ''NK Tafeltennis''),
             insert_row (S ''2026-11-04 09:00:00'') cand_b (S ''Open Delft'')], 2)"
    by (simp add: save_tournaments_to_db_def stamped_def upt_rec cand_a_def cand_b_def
          has_active_def matches_def insert_row_def)
  from save_twice_same_rows[of "\<lambda>k. (S ''2026-11-04 09:00:00'')" "[]" "[cand_a, cand_b]"
      "\<lambda>k. (S ''2026-11-04 09:00:00'')"] run1
  show ?thesis by auto
qed

lemma save_loop_active_set:
  "save_loop rows k ps = Inr (rows', k')
   \<Longrightarrow> set (active_hashes rows') = set (active_hashes rows) \<union> set (map (c_hash \<circ> snd) ps)"
proof (induction ps arbitrary: rows k)
  case Nil
  then show ?case by simp
next
  case (Cons p ps)
  obtain ts c where p: "p = (ts, c)" by (cases p)
  from Cons.prems p obtain n where n: "c_name c = Some n" by (cases "c_name c") auto
  show ?case
  proof (cases "has_active rows (c_hash c)")
    case True
    with Cons.prems p n
    have "save_loop (map (update_row ts c n) rows) k ps = Inr (rows', k')" by simp
    from Cons.IH[OF this] True show ?thesis
      by (auto simp: active_hashes_map_update p set_active_hashes)
  next
    case False
    with Cons.prems p n
    have "save_loop (rows @ [insert_row ts c n]) (k + 1) ps = Inr (rows', k')"
      by (simp split: if_splits)
    from Cons.IH[OF this] show ?thesis
      by (auto simp: active_hashes_append_insert p)
  qed
qed

text \<open>
  Claim C4 (one active row per fingerprint).  From a store in which no fingerprint
  has two active rows, \<^verbatim>\<open>_save_tournaments_to_db\<close> leads to a store with the same
  property: a candidate whose hash has an active row updates it, and a row is
  inserted only for a hash that has none.  The fingerprints with an active row
  afterwards are those from before and those of the candidates, and the table grows
  by exactly the returned count.
\<close>

theorem save_keeps_one_active_row_per_hash:
  assumes inv: "distinct (active_hashes rows)"
    and run: "save_tournaments_to_db clock rows tournaments = Inr (rows', n)"
  shows "distinct (active_hashes rows')
         \<and> set (active_hashes rows') = set (active_hashes rows) \<union> set (map c_hash tournaments)
         \<and> length rows' = length rows + n"
proof -
  have loop: "save_loop rows 0 (stamped clock tournaments) = Inr (rows', n)"
    using run by (simp add: save_tournaments_to_db_def)
  have "map (c_hash \<circ> snd) (stamped clock tournaments) = map c_hash tournaments"
    using map_snd_stamped[of clock tournaments] by (metis map_map)
  then have "set (active_hashes rows') = set (active_hashes rows) \<union> set (map c_hash tournaments)"
    using save_loop_active_set[OF loop] by simp
  moreover have "distinct (active_hashes rows')"
    using inv loop by (rule save_loop_distinct)
  moreover have "length rows' = length rows + n"
    using save_loop_length[OF loop] by simp
  ultimately show ?thesis by simp
qed

theorem save_keeps_one_active_row_per_hash_witness:
  "distinct (active_hashes store_a)
   \<and> save_tournaments_to_db (\<lambda>k. (S ''2026-11-04 09:00:00'')) store_a [cand_a, cand_b]
       = Inr ([update_row (S ''2026-11-04 09:00:00'') cand_a (S ''NK Tafeltennis'') (hd store_a),
               insert_row (S ''2026-11-04 09:00:00'') cand_b (S ''Open Delft'')], 1)
   \<and> distinct (active_hashes
         [update_row (S ''2026-11-04 09:00:00'') cand_a (S ''NK Tafeltennis'') (hd store_a),
          insert_row (S ''2026-11-04 09:00:00'') cand_b (S ''Open Delft'')])"
proof -
  have inv: "distinct (active_hashes store_a)"
    by (simp add: store_a_def active_hashes_def insert_row_def)
  have run: "save_tournaments_to_db (\<lambda>k. (S ''2026-11-04 09:00:00'')) store_a [cand_a, cand_b]
       = Inr ([update_row (S ''2026-11-04 09:00:00'') cand_a (S ''NK Tafeltennis'') (hd store_a),
               insert_row (S ''2026-11-04 09:00:00'') cand_b (S ''Open Delft'')], 1)"
    by (simp add: save_tournaments_to_db_def stamped_def upt_rec store_a_def cand_a_def cand_b_def
          has_active_def matches_def insert_row_def update_row_def)
  from save_keeps_one_active_row_per_hash[OF inv run] inv run show ?thesis by blast
qed

section \<open>Evaluating closed terms\<close>

text \<open>Rule sets that let the simplifier compute the model on literals.\<close>

lemma replicate_numeral: "replicate (numeral k) x = x # replicate (pred_numeral k) x"
  by (simp add: numeral_eq_Suc)

lemmas date_eval = add_days_def ymd2ord_def days_before_year_def days_before_month_def
  is_leap_def ord2ymd_def month_lengths_def days_in_month_def Let_def

lemmas parse_eval = fromisoformat_def parse_isoformat_date_def parse_hh_mm_ss_ff_def
  num_field_def is_digit_def digits_value_def digit_value_def replace_Z_def

lemmas format_eval = isoformat_def sqlite_timestamp_def iso_date_def iso_time_def zpad_def
  str_nat.simps digit_char_def replicate_numeral

lemmas dom_eval = find_first_def find_all_def has_class_def has_attr_def get_text_def
  get_text_strip_def py_isspace_def py_strip_def py_lower_def ascii_lower_def startswith_def
  py_split_def

lemma example_elements: "tournament_elements lo example_soup = [example_item]"
  by (simp add: tournament_elements_def qualifies_def example_soup_def example_item_def
        example_consent_def example_advert_def dom_eval)

lemma md5_round_indices: "[0..<64] = 0 # 1 # [2..<64]"
  by (simp add: upt_conv_Cons)

lemmas md5_eval = md5_hex_def md5_pad_def le_bytes4_def replicate_numeral md5_blocks.simps
  md5_block_def md5_round_indices md5_F_def md5_g_def md5_s_def md5_K_def add32_def not32_def
  rotl32_def hex_byte_def encode_def utf8_char_def

lemmas extract_eval = extract_tournament_details_def extract_registration_info_def
  extract_title_def extract_location_def extract_dates_def extract_categories_def
  new_candidate_def registration_keywords_def closed_keywords_def base_url_def get_str_def
  Let_def

lemma example_md5: "md5_hex (S ''NK Tafeltennis2026-11-09Rotterdam'') = S ''015227a060ea2593f9ab42fcd3ab0257''"
  by (simp add: md5_eval)

lemma example_md5_accented:
  "md5_hex (S ''Caf'' @ [0xE9] @ S '' Open2026-11-09Delft'') = c_hash cand_cafe"
  by (simp add: cand_cafe_def md5_eval)

lemma example_extract:
  "extract_tournament_details lo example_item 0 (S ''upcoming'') 1793782800 example_now
     = example_candidate"
  by (simp add: extract_eval example_item_def example_now_def example_candidate_def dom_eval
        format_eval with_hash_def hash_string_def example_md5[simplified])

lemma example_parse:
  "parse_tournaments lo example_soup (S ''upcoming'') 1793782800 example_now = [example_candidate]"
  by (simp add: parse_tournaments_def example_elements example_extract[simplified] enumerate_eq_zip truthy_def
        example_candidate_def)


lemma example_extract_recent:
  "extract_tournament_details lo example_item_recent 3 (S ''recent'') 1793786400 example_now
     = \<lparr> c_id = S ''tournament_recent_3_1793786400'',
         c_extraction_method = S ''nttb_scraper_v2'',
         c_timestamp = S ''2026-11-04T12:00:00'',
         c_source = S ''recent'',
         c_name = Some (S ''NK Tafeltennis''),
         c_tournament_url = None, c_tournament_id = None,
         c_location = Some (S ''Rotterdam''),
         c_date = Some (S ''maandag 9 november''),
         c_start_date = Some (S ''2026-11-09''),
         c_end_date = None, c_categories = None,
         c_registration_available = False,
         c_registration_url = None, c_registration_deadline = None,
         c_registration_status = None,
         c_hash = S ''015227a060ea2593f9ab42fcd3ab0257'' \<rparr>"
  by (simp add: extract_eval example_item_recent_def example_now_def dom_eval
        format_eval with_hash_def hash_string_def example_md5[simplified])

section \<open>Properties of the query facade\<close>

lemma upcoming_loop_filter:
  "list_all (\<lambda>t. case fromisoformat (replace_Z (t_start_date t)) of
                    Some (Aware start off) \<Rightarrow> t_start_date t = [] | _ \<Rightarrow> True) ts
   \<Longrightarrow> upcoming_loop now cutoff acc ts =
       Inr (acc @ filter (\<lambda>t. t_start_date t \<noteq> []
                \<and> (case fromisoformat (replace_Z (t_start_date t)) of
                      None \<Rightarrow> True
                    | Some (Naive start) \<Rightarrow> dt_le now start \<and> dt_le start cutoff
                    | Some (Aware start off) \<Rightarrow> False)) ts)"
proof (induction ts arbitrary: acc)
  case Nil
  then show ?case by simp
next
  case (Cons t ts)
  then show ?case
    by (cases "fromisoformat (replace_Z (t_start_date t))")
       (auto split: parsed.splits)
qed

text \<open>
  Claim C1, as stated, fails.  The third row of the example table is active and
  has no start date; on 4 November 2026, \<^verbatim>\<open>get_upcoming_tournaments(30)\<close> returns
  the row that starts in five days and nothing else.
\<close>

theorem upcoming_drops_undated_counterexample:
  "r_start_date (example_rows ! 2) = None
   \<and> r_is_active (example_rows ! 2) = Some True
   \<and> get_upcoming_tournaments example_now 30 (Inr example_rows)
       = Inr [to_tournament (example_rows ! 0)]
   \<and> to_tournament (example_rows ! 2) \<noteq> to_tournament (example_rows ! 0)"
  by (simp add: get_upcoming_tournaments_def get_all_tournaments_def select_active_def
        example_rows_def example_now_def cand_a_def cand_b_def cand_c_def insert_row_def
        to_tournament_def or_default_def date_eval parse_eval dt_le_def dt_key_def)

text \<open>
  Claim C1, amended.  \<^verbatim>\<open>get_upcoming_tournaments(days)\<close> returns, in the order of
  \<^verbatim>\<open>get_all_tournaments\<close>, exactly the active records whose start date is present
  (not empty) and either parses to a time from \<open>now\<close> to \<open>now + days\<close>, both
  included, or does not parse.  A record without a start date is never returned.
  This is for a window that stays within the calendar and for tables in which no
  start date carries a UTC offset.
\<close>

theorem upcoming_is_dated_window:
  assumes cutoff: "add_days now days = Inr cutoff"
    and naive: "list_all (\<lambda>t. \<not> parses_aware (t_start_date t)) (get_all_tournaments db)"
  shows "get_upcoming_tournaments now days db =
           Inr (filter (\<lambda>t. t_start_date t \<noteq> []
                   \<and> (case fromisoformat (replace_Z (t_start_date t)) of
                         None \<Rightarrow> True
                       | Some (Naive start) \<Rightarrow> dt_le now start \<and> dt_le start cutoff
                       | Some (Aware start off) \<Rightarrow> False))
                 (get_all_tournaments db))"
proof -
  have "list_all (\<lambda>t. case fromisoformat (replace_Z (t_start_date t)) of
                    Some (Aware start off) \<Rightarrow> t_start_date t = [] | _ \<Rightarrow> True)
          (get_all_tournaments db)"
    using naive
    by (auto simp: list_all_iff parses_aware_def split: option.splits parsed.splits)
  from upcoming_loop_filter[OF this, of now cutoff "[]"] cutoff
  show ?thesis by (simp add: get_upcoming_tournaments_def)
qed

theorem upcoming_is_dated_window_witness:
  "add_days example_now 30 = Inr (example_now\<lparr> dt_month := 12 \<rparr>)
   \<and> list_all (\<lambda>t. \<not> parses_aware (t_start_date t)) (get_all_tournaments (Inr example_rows))
   \<and> get_upcoming_tournaments example_now 30 (Inr example_rows) =
           Inr (filter (\<lambda>t. t_start_date t \<noteq> []
                   \<and> (case fromisoformat (replace_Z (t_start_date t)) of
                         None \<Rightarrow> True
                       | Some (Naive start) \<Rightarrow>
                           dt_le example_now start \<and> dt_le start (example_now\<lparr> dt_month := 12 \<rparr>)
                       | Some (Aware start off) \<Rightarrow> False))
                 (get_all_tournaments (Inr example_rows)))"
proof -
  have c: "add_days example_now 30 = Inr (example_now\<lparr> dt_month := 12 \<rparr>)"
    by (simp add: example_now_def date_eval)
  have n: "list_all (\<lambda>t. \<not> parses_aware (t_start_date t)) (get_all_tournaments (Inr example_rows))"
    by (simp add: get_all_tournaments_def select_active_def parses_aware_def
        example_rows_def cand_a_def cand_b_def cand_c_def insert_row_def
        to_tournament_def or_default_def date_eval parse_eval)
  from upcoming_is_dated_window[OF c n] c n show ?thesis by simp
qed

lemma get_all_fault: "get_all_tournaments (Inl e) = []"
  by (simp add: get_all_tournaments_def)

text \<open>
  Claim C9 (store fault on read).  When the store faults, \<^verbatim>\<open>get_all_tournaments\<close>
  returns the empty list, and so do the reads built on it; the statistics are all
  zero.  Nothing is raised.  (\<open>now + days\<close> is assumed to be a date of the calendar,
  which does not depend on the store.)
\<close>

theorem store_fault_reads_empty:
  assumes "add_days now days = Inr cutoff" and "add_days now 30 = Inr cutoff30"
  shows "get_all_tournaments (Inl e) = []
     \<and> get_upcoming_tournaments now days (Inl e) = Inr []
     \<and> search_tournaments lo query (Inl e) = []
     \<and> get_tournaments_with_registration (Inl e) = []
     \<and> get_tournament_stats now (Inl e1) (Inl e2) (Inl e3)
         = Inr \<lparr> total = 0, upcoming_30_days = 0, with_registration = 0 \<rparr>"
  using assms
  by (simp add: get_all_fault get_upcoming_tournaments_def search_tournaments_def
        get_tournaments_with_registration_def get_tournament_stats_def)

theorem store_fault_reads_empty_witness:
  "add_days example_now 7 = Inr (example_now\<lparr> dt_day := 11 \<rparr>)
   \<and> add_days example_now 30 = Inr (example_now\<lparr> dt_month := 12 \<rparr>)
   \<and> get_all_tournaments (Inl OperationalError) = []
   \<and> get_upcoming_tournaments example_now 7 (Inl OperationalError) = Inr []
   \<and> search_tournaments ucd_sample (S ''delft'') (Inl OperationalError) = []
   \<and> get_tournaments_with_registration (Inl OperationalError) = []
   \<and> get_tournament_stats example_now (Inl OperationalError) (Inl OperationalError)
        (Inl OperationalError)
       = Inr \<lparr> total = 0, upcoming_30_days = 0, with_registration = 0 \<rparr>"
proof -
  have a: "add_days example_now 7 = Inr (example_now\<lparr> dt_day := 11 \<rparr>)"
    by (simp add: example_now_def date_eval)
  have b: "add_days example_now 30 = Inr (example_now\<lparr> dt_month := 12 \<rparr>)"
    by (simp add: example_now_def date_eval)
  from store_fault_reads_empty[OF a b, of OperationalError ucd_sample "S ''delft''" OperationalError
      OperationalError OperationalError] a b
  show ?thesis by simp
qed

lemma set_select_active: "set (select_active rows) = {r \<in> set rows. r_is_active r = Some True}"
  by (auto simp: select_active_def)

lemma py_in_unknown: "py_in (py_lower lo (S ''unknown'')) (py_lower lo (S ''Unknown''))"
  by (simp add: py_lower_def ascii_lower_def startswith_def)

text \<open>
  Claim C10 (defaults for NULL columns).  Every active row is returned by
  \<^verbatim>\<open>get_all_tournaments\<close> with \<^verbatim>\<open>'Unknown'\<close> for a NULL location, \<^verbatim>\<open>'TBA'\<close> for
  a NULL date, the empty string for a NULL start date and \<^verbatim>\<open>'unknown'\<close> for a NULL
  source; a row with a NULL location is found by \<^verbatim>\<open>search_tournaments('unknown')\<close>.
\<close>

theorem null_columns_read_as_defaults:
  assumes "r \<in> set rows" and "r_is_active r = Some True"
  shows "to_tournament r \<in> set (get_all_tournaments (Inr rows))
     \<and> (r_location r = None \<longrightarrow> t_location (to_tournament r) = S ''Unknown'')
     \<and> (r_date r = None \<longrightarrow> t_date (to_tournament r) = S ''TBA'')
     \<and> (r_start_date r = None \<longrightarrow> t_start_date (to_tournament r) = [])
     \<and> (r_source r = None \<longrightarrow> t_source (to_tournament r) = S ''unknown'')
     \<and> (r_location r = None \<longrightarrow> to_tournament r \<in> set (search_tournaments lo (S ''unknown'') (Inr rows)))"
proof -
  have mem: "to_tournament r \<in> set (get_all_tournaments (Inr rows))"
    using assms by (simp add: get_all_tournaments_def set_select_active)
  have loc: "t_location (to_tournament r) = S ''Unknown''" if "r_location r = None"
    using that by (simp add: to_tournament_def or_default_def)
  have "to_tournament r \<in> set (search_tournaments lo (S ''unknown'') (Inr rows))" if "r_location r = None"
    using mem loc[OF that] py_in_unknown by (simp add: search_tournaments_def Let_def)
  then show ?thesis using mem loc by (simp add: to_tournament_def or_default_def)
qed

theorem null_columns_read_as_defaults_witness:
  "example_rows ! 2 \<in> set example_rows \<and> r_is_active (example_rows ! 2) = Some True
   \<and> r_location (example_rows ! 2) = None
   \<and> to_tournament (example_rows ! 2) \<in> set (get_all_tournaments (Inr example_rows))
   \<and> t_location (to_tournament (example_rows ! 2)) = S ''Unknown''
   \<and> t_date (to_tournament (example_rows ! 2)) = S ''TBA''
   \<and> t_start_date (to_tournament (example_rows ! 2)) = []
   \<and> to_tournament (example_rows ! 2) \<in> set (search_tournaments ucd_sample (S ''unknown'') (Inr example_rows))"
proof -
  have a: "example_rows ! 2 \<in> set example_rows" by (simp add: example_rows_def)
  have b: "r_is_active (example_rows ! 2) = Some True"
    by (simp add: example_rows_def insert_row_def)
  have c: "r_location (example_rows ! 2) = None \<and> r_date (example_rows ! 2) = None
     \<and> r_start_date (example_rows ! 2) = None"
    by (simp add: example_rows_def insert_row_def cand_c_def cand_a_def)
  from null_columns_read_as_defaults[OF a b, of ucd_sample] a b c show ?thesis by simp
qed


section \<open>Properties of the record extractor\<close>

subsection \<open>Registration\<close>

lemma registration_loop_closed:
  "find (\<lambda>link. list_ex (\<lambda>keyword. py_in keyword (py_lower lo (get_text link)))
                   registration_keywords) reg_links = Some link
   \<Longrightarrow> list_ex (\<lambda>closed. py_in closed (py_lower lo (get_text link))) closed_keywords
   \<Longrightarrow> c_registration_available (registration_loop lo reg_links tournament) = False
       \<and> c_registration_status (registration_loop lo reg_links tournament) = Some (S ''closed'')"
proof (induction reg_links)
  case Nil
  then show ?case by simp
next
  case (Cons l ls)
  show ?case
  proof (cases "list_ex (\<lambda>keyword. py_in keyword (py_lower lo (get_text l))) registration_keywords")
    case True
    with Cons.prems have "l = link" by simp
    with True Cons.prems(2) show ?thesis by (simp add: Let_def)
  next
    case False
    with Cons.prems have "find (\<lambda>link. list_ex (\<lambda>keyword. py_in keyword (py_lower lo (get_text link)))
                   registration_keywords) ls = Some link" by simp
    from Cons.IH[OF this Cons.prems(2)] False show ?thesis by (simp add: Let_def)
  qed
qed

lemma with_hash_registration:
  "c_registration_available (with_hash t) = c_registration_available t"
  "c_registration_status (with_hash t) = c_registration_status t"
  by (simp_all add: with_hash_def)

text \<open>
  Claim C7 (closed registration).  When the first link, among those with an
  \<^verbatim>\<open>href\<close>, whose lower-cased text contains a registration keyword also contains a
  closed keyword, the extracted record has \<^verbatim>\<open>registration_available = False\<close> and
  \<^verbatim>\<open>registration_status = 'closed'\<close>.  The witness is a link reading
  \<^verbatim>\<open>Inschrijving gesloten\<close>.
\<close>

theorem closed_registration_link_overrides:
  assumes first_link:
      "find (\<lambda>link. list_ex (\<lambda>keyword. py_in keyword (py_lower lo (get_text link)))
                      registration_keywords)
            (find_all element (S ''a'') (has_attr (S ''href''))) = Some link"
    and closed: "list_ex (\<lambda>closed. py_in closed (py_lower lo (get_text link))) closed_keywords"
  shows "c_registration_available (extract_tournament_details lo element index source epoch now)
           = False
       \<and> c_registration_status (extract_tournament_details lo element index source epoch now)
           = Some (S ''closed'')"
  using registration_loop_closed[OF first_link closed]
  by (simp add: extract_tournament_details_def extract_registration_info_def Let_def
        with_hash_registration)

theorem closed_registration_link_overrides_witness:
  "find (\<lambda>link. list_ex (\<lambda>keyword. py_in keyword (py_lower ucd_sample (get_text link)))
                      registration_keywords)
            (find_all example_item (S ''a'') (has_attr (S ''href'')))
     = Some (Tag (S ''a'') [(S ''href'', S ''/inschrijven?id=ABC-123'')] [Text (S ''Inschrijving gesloten'')])
   \<and> list_ex (\<lambda>closed. py_in closed (py_lower ucd_sample (S ''Inschrijving gesloten''))) closed_keywords
   \<and> c_registration_available
        (extract_tournament_details ucd_sample example_item 0 (S ''upcoming'') 1793782800 example_now) = False
   \<and> c_registration_status
        (extract_tournament_details ucd_sample example_item 0 (S ''upcoming'') 1793782800 example_now)
       = Some (S ''closed'')"
proof -
  have a: "find (\<lambda>link. list_ex (\<lambda>keyword. py_in keyword (py_lower ucd_sample (get_text link)))
                      registration_keywords)
            (find_all example_item (S ''a'') (has_attr (S ''href'')))
     = Some (Tag (S ''a'') [(S ''href'', S ''/inschrijven?id=ABC-123'')] [Text (S ''Inschrijving gesloten'')])"
    by (simp add: example_item_def dom_eval registration_keywords_def)
  have b: "list_ex (\<lambda>closed. py_in closed
       (py_lower ucd_sample (get_text (Tag (S ''a'') [(S ''href'', S ''/inschrijven?id=ABC-123'')]
          [Text (S ''Inschrijving gesloten'')])))) closed_keywords"
    by (simp add: dom_eval closed_keywords_def)
  have c: "list_ex (\<lambda>closed. py_in closed (py_lower ucd_sample (S ''Inschrijving gesloten''))) closed_keywords"
    by (simp add: dom_eval closed_keywords_def)
  from closed_registration_link_overrides[OF a b, of 0 "S ''upcoming''" 1793782800 example_now] a c
  show ?thesis by simp
qed

subsection \<open>The candidate filter\<close>

text \<open>On text whose first \<open>n\<close> characters are ASCII, lower-casing keeps their positions.\<close>

lemma lower_from_ascii:
  "list_all (\<lambda>c. c < 128) (take n s)
   \<Longrightarrow> take n (lower_from lo before s) = map ascii_lower (take n s)"
proof (induction s arbitrary: n before)
  case Nil
  then show ?case by simp
next
  case (Cons c s)
  then show ?case by (cases n) simp_all
qed

lemma py_in_map: "py_in sub s \<Longrightarrow> py_in (map f sub) (map f s)"
proof (induction s)
  case Nil
  then show ?case by simp
next
  case (Cons c cs)
  from Cons.prems consider "startswith (c # cs) sub" | "py_in sub cs" by auto
  then show ?case
  proof cases
    case 1
    then have "take (length sub) (c # cs) = sub" by (simp add: startswith_def)
    then have "map f (take (length sub) (c # cs)) = map f sub" by simp
    then have "startswith (map f (c # cs)) (map f sub)"
      by (simp add: startswith_def take_map del: list.map)
    then show ?thesis by simp
  next
    case 2
    with Cons.IH show ?thesis by simp
  qed
qed

lemma cookie_lower:
  assumes ascii: "list_all (\<lambda>c. c < 128) (take 100 s)"
    and found: "py_in (S ''cookie'') (take 100 s)"
  shows "py_in (S ''cookie'') (take 100 (py_lower lo s))"
proof -
  from found have "py_in (map ascii_lower (S ''cookie'')) (map ascii_lower (take 100 s))"
    by (rule py_in_map)
  moreover have "map ascii_lower (S ''cookie'') = S ''cookie''" by (simp add: ascii_lower_def)
  moreover have "take 100 (py_lower lo s) = map ascii_lower (take 100 s)"
    unfolding py_lower_def using ascii by (rule lower_from_ascii)
  ultimately show ?thesis by simp
qed

text \<open>
  Claim C8, as stated, fails in its fourth condition.  The filter lower-cases the
  whole text and then takes 100 characters, and lower-casing can lengthen a text.
  The first 100 characters of the text of this item end in \<^verbatim>\<open>cookie\<close>; lower-cased,
  each U+0130 becomes two characters, \<^verbatim>\<open>cookie\<close> moves behind position 100, and the
  item is emitted as a candidate.
\<close>

theorem filter_slices_lowered_text_counterexample:
  "length (get_text dotted_item) = 100
   \<and> py_in (S ''cookie'') (take 100 (get_text dotted_item))
   \<and> length (py_lower ucd_sample (get_text dotted_item)) = 106
   \<and> tournament_elements ucd_sample (Tag (S ''ul'') [] [dotted_item]) = [dotted_item]
   \<and> map c_name (parse_tournaments ucd_sample (Tag (S ''ul'') [] [dotted_item])
                    (S ''upcoming'') 1793782800 example_now)
       = [Some (get_text dotted_item)]"
proof -
  have content: "get_text dotted_item = replicate 6 0x130 @ replicate 88 (cp (CHR ''x'')) @ S ''cookie''"
    by (simp add: dotted_item_def get_text_def)
  have a: "length (get_text dotted_item) = 100" by (simp add: content)
  have b: "py_in (S ''cookie'') (take 100 (get_text dotted_item))"
    by (simp add: content replicate_numeral startswith_def)
  have c: "length (py_lower ucd_sample (get_text dotted_item)) = 106"
    by (simp add: content replicate_numeral py_lower_def ascii_lower_def ucd_sample_def)
  have d: "tournament_elements ucd_sample (Tag (S ''ul'') [] [dotted_item]) = [dotted_item]"
    by (simp add: tournament_elements_def qualifies_def dotted_item_def dom_eval replicate_numeral
          ucd_sample_def)
  have e: "c_name (extract_tournament_details ucd_sample dotted_item 0 (S ''upcoming'') 1793782800
              example_now) = Some (get_text dotted_item)"
    by (simp add: extract_eval with_hash_def dotted_item_def dom_eval replicate_numeral)
  have f: "map c_name (parse_tournaments ucd_sample (Tag (S ''ul'') [] [dotted_item])
                    (S ''upcoming'') 1793782800 example_now)
       = [Some (get_text dotted_item)]"
    using e by (simp add: parse_tournaments_def d[simplified] enumerate_eq_zip truthy_def content)
  from a b c d f show ?thesis by (simp only: simp_thms)
qed

text \<open>
  Claim C8, amended.  Every candidate \<^verbatim>\<open>_parse_tournaments\<close> emits is extracted
  from a \<^verbatim>\<open>li.list__item\<close> element that has a title element, contains no checkbox
  input and no \<^verbatim>\<open>div.ad\<close>, and whose lower-cased text does not contain \<^verbatim>\<open>cookie\<close>
  in its first 100 characters.  When the first 100 characters of the text are
  ASCII, they do not contain \<^verbatim>\<open>cookie\<close> as written either.  So an element with a
  checkbox input yields no candidate, title or not.
\<close>

theorem emitted_candidates_pass_filter:
  assumes "tournament \<in> set (parse_tournaments lo soup source epoch now)"
  shows "\<exists>i element.
           (i, element) \<in> set (enumerate 0 (tournament_elements lo soup))
         \<and> tournament = extract_tournament_details lo element i source epoch now
         \<and> element \<in> set (find_all soup (S ''li'') (has_class [S ''list__item'']))
         \<and> find_first element (S ''h4'') (has_class [S ''media__title'']) \<noteq> None
         \<and> find_first element (S ''input'') (\<lambda>d. get_attr d (S ''type'') = Some (S ''checkbox'')) = None
         \<and> find_first element (S ''div'') (has_class [S ''ad'']) = None
         \<and> \<not> py_in (S ''cookie'') (take 100 (py_lower lo (get_text element)))
         \<and> (list_all (\<lambda>c. c < 128) (take 100 (get_text element))
              \<longrightarrow> \<not> py_in (S ''cookie'') (take 100 (get_text element)))"
proof -
  from assms obtain i element where ie: "(i, element) \<in> set (enumerate 0 (tournament_elements lo soup))"
    and t: "tournament = extract_tournament_details lo element i source epoch now"
    by (auto simp: parse_tournaments_def)
  from ie have "element \<in> set (tournament_elements lo soup)"
    by (auto simp: in_set_enumerate_eq)
  then have q: "qualifies lo element"
    and li: "element \<in> set (find_all soup (S ''li'') (has_class [S ''list__item'']))"
    by (simp_all add: tournament_elements_def)
  from q have low: "\<not> py_in (S ''cookie'') (take 100 (py_lower lo (get_text element)))"
    by (simp add: qualifies_def)
  then have "\<not> py_in (S ''cookie'') (take 100 (get_text element))"
    if "list_all (\<lambda>c. c < 128) (take 100 (get_text element))"
    using cookie_lower[OF that, of lo] by blast
  with q li ie t show ?thesis unfolding qualifies_def by blast
qed

theorem emitted_candidates_pass_filter_witness:
  "example_candidate \<in> set (parse_tournaments ucd_sample example_soup (S ''upcoming'') 1793782800 example_now)
   \<and> list_all (\<lambda>c. c < 128) (take 100 (get_text example_item))
   \<and> (\<exists>i element.
           (i, element) \<in> set (enumerate 0 (tournament_elements ucd_sample example_soup))
         \<and> example_candidate = extract_tournament_details ucd_sample element i (S ''upcoming'') 1793782800 example_now
         \<and> find_first element (S ''input'') (\<lambda>d. get_attr d (S ''type'') = Some (S ''checkbox'')) = None
         \<and> \<not> py_in (S ''cookie'') (take 100 (py_lower ucd_sample (get_text element))))
   \<and> \<not> py_in (S ''cookie'') (take 100 (get_text example_item))
   \<and> find_first example_consent (S ''h4'') (has_class [S ''media__title'']) \<noteq> None
   \<and> example_consent \<notin> set (tournament_elements ucd_sample example_soup)"
proof -
  have a: "example_candidate \<in> set (parse_tournaments ucd_sample example_soup (S ''upcoming'') 1793782800 example_now)"
    by (simp add: example_parse[simplified])
  have b: "find_first example_consent (S ''h4'') (has_class [S ''media__title'']) \<noteq> None"
    by (simp add: example_consent_def dom_eval)
  have c: "example_consent \<notin> set (tournament_elements ucd_sample example_soup)"
    by (simp add: example_elements example_consent_def example_item_def)
  have d: "list_all (\<lambda>c. c < 128) (take 100 (get_text example_item))"
    by (simp add: example_item_def get_text_def)
  from emitted_candidates_pass_filter[OF a] obtain i element
    where ie: "(i, element) \<in> set (enumerate 0 (tournament_elements ucd_sample example_soup))"
      and rest: "example_candidate = extract_tournament_details ucd_sample element i (S ''upcoming'') 1793782800 example_now"
        "find_first element (S ''input'') (\<lambda>d. get_attr d (S ''type'') = Some (S ''checkbox'')) = None"
        "\<not> py_in (S ''cookie'') (take 100 (py_lower ucd_sample (get_text element)))"
        "list_all (\<lambda>c. c < 128) (take 100 (get_text element))
              \<longrightarrow> \<not> py_in (S ''cookie'') (take 100 (get_text element))"
    by blast
  from ie have "element = example_item" by (simp add: example_elements enumerate_eq_zip)
  with rest(4) d have e: "\<not> py_in (S ''cookie'') (take 100 (get_text example_item))" by blast
  from ie rest a b c d e show ?thesis by blast
qed

subsection \<open>The fingerprint\<close>

text \<open>
  Claim C2, as stated, fails.  Two candidates with the same start date and
  location whose names differ only in letter case get different fingerprints, and
  so do two whose names differ only in the number of spaces between two words: the
  hash is taken of the fields as extracted.
\<close>

theorem fingerprint_keeps_case_and_spacing_counterexample:
  "py_lower ucd_sample (get_str (c_name cand_a)) = py_lower ucd_sample (get_str (c_name cand_a_lower))
   \<and> c_start_date cand_a = c_start_date cand_a_lower
   \<and> c_location cand_a = c_location cand_a_lower
   \<and> filter (\<lambda>c. \<not> py_isspace c) (get_str (c_name cand_a))
       = filter (\<lambda>c. \<not> py_isspace c) (get_str (c_name cand_a_spaced))
   \<and> c_start_date cand_a = c_start_date cand_a_spaced
   \<and> c_location cand_a = c_location cand_a_spaced
   \<and> c_hash (with_hash cand_a) = S ''015227a060ea2593f9ab42fcd3ab0257''
   \<and> c_hash (with_hash cand_a_lower) = S ''b1b9252be554ff333c14a6995b2297ff''
   \<and> c_hash (with_hash cand_a_spaced) = S ''4b4960f67e2cbe8740697d0dd4f0ef68''
   \<and> c_hash (with_hash cand_a) \<noteq> c_hash (with_hash cand_a_lower)
   \<and> c_hash (with_hash cand_a) \<noteq> c_hash (with_hash cand_a_spaced)"
proof -
  have fields: "py_lower ucd_sample (get_str (c_name cand_a))
       = py_lower ucd_sample (get_str (c_name cand_a_lower))
     \<and> c_start_date cand_a = c_start_date cand_a_lower
     \<and> c_location cand_a = c_location cand_a_lower
     \<and> filter (\<lambda>c. \<not> py_isspace c) (get_str (c_name cand_a))
       = filter (\<lambda>c. \<not> py_isspace c) (get_str (c_name cand_a_spaced))
     \<and> c_start_date cand_a = c_start_date cand_a_spaced
     \<and> c_location cand_a = c_location cand_a_spaced"
    by (simp add: cand_a_def cand_a_lower_def cand_a_spaced_def get_str_def py_lower_def
          ascii_lower_def py_isspace_def)
  have h: "c_hash (with_hash cand_a) = S ''015227a060ea2593f9ab42fcd3ab0257''"
    by (simp add: cand_a_def with_hash_def hash_string_def get_str_def example_md5[simplified])
  have hl: "c_hash (with_hash cand_a_lower) = S ''b1b9252be554ff333c14a6995b2297ff''"
    by (simp add: cand_a_def cand_a_lower_def with_hash_def hash_string_def get_str_def md5_eval)
  have hs: "c_hash (with_hash cand_a_spaced) = S ''4b4960f67e2cbe8740697d0dd4f0ef68''"
    by (simp add: cand_a_def cand_a_spaced_def with_hash_def hash_string_def get_str_def md5_eval)
  have "c_hash (with_hash cand_a) \<noteq> c_hash (with_hash cand_a_lower)"
    unfolding h hl by simp
  moreover have "c_hash (with_hash cand_a) \<noteq> c_hash (with_hash cand_a_spaced)"
    unfolding h hs by simp
  ultimately show ?thesis using fields h hl hs by blast
qed

text \<open>Stripping a stripped text changes nothing.\<close>

lemma strip_first:
  "dropWhile P (rev (dropWhile P (rev (dropWhile P s)))) = rev (dropWhile P (rev (dropWhile P s)))"
proof -
  define a where "a = dropWhile P s"
  define b where "b = rev (dropWhile P (rev a))"
  define c where "c = rev (takeWhile P (rev a))"
  have split: "a = b @ c"
  proof -
    have "a = rev (takeWhile P (rev a) @ dropWhile P (rev a))"
      by (simp only: takeWhile_dropWhile_id rev_rev_ident)
    also have "\<dots> = rev (dropWhile P (rev a)) @ rev (takeWhile P (rev a))"
      by (rule rev_append)
    finally show ?thesis unfolding b_def c_def .
  qed
  have "dropWhile P b = b"
  proof (cases b)
    case Nil
    then show ?thesis by simp
  next
    case (Cons x xs)
    with split have "a \<noteq> []" and "hd a = x" by auto
    moreover have "a \<noteq> [] \<Longrightarrow> \<not> P (hd a)" unfolding a_def by (rule hd_dropWhile)
    ultimately have "\<not> P x" by auto
    with Cons show ?thesis by simp
  qed
  then show ?thesis by (simp add: a_def b_def)
qed

lemma py_strip_idem: "py_strip (py_strip s) = py_strip s"
  by (simp add: py_strip_def strip_first)

text \<open>
  A stripped text is empty or has no whitespace at either end, and so is a
  concatenation of stripped texts: what \<^verbatim>\<open>get_text(strip=True)\<close> returns.
\<close>

lemma py_strip_ends:
  "py_strip s = [] \<or> (\<not> py_isspace (hd (py_strip s)) \<and> \<not> py_isspace (last (py_strip s)))"
proof (cases "py_strip s = []")
  case True
  then show ?thesis by simp
next
  case False
  have "dropWhile py_isspace (py_strip s) = py_strip s"
    by (simp add: py_strip_def strip_first)
  with False have "\<not> py_isspace (hd (py_strip s))"
    by (metis hd_dropWhile)
  moreover have "rev (py_strip s) = dropWhile py_isspace (rev (dropWhile py_isspace s))"
    by (simp add: py_strip_def)
  then have "\<not> py_isspace (hd (rev (py_strip s)))"
    using False by (metis hd_dropWhile rev_is_Nil_conv)
  then have "\<not> py_isspace (last (py_strip s))"
    using False by (simp add: hd_rev)
  ultimately show ?thesis by simp
qed

lemma py_strip_fixed:
  assumes "x = [] \<or> (\<not> py_isspace (hd x) \<and> \<not> py_isspace (last x))"
  shows "py_strip x = x"
proof (cases "x = []")
  case True
  then show ?thesis by (simp add: py_strip_def)
next
  case False
  with assms have h: "\<not> py_isspace (hd x)" and l: "\<not> py_isspace (last x)" by auto
  from False h have "dropWhile py_isspace x = x" by (cases x) auto
  moreover from False l have "dropWhile py_isspace (rev x) = rev x"
    by (cases "rev x") (auto simp: hd_rev[symmetric])
  ultimately show ?thesis by (simp add: py_strip_def)
qed

lemma concat_ends:
  assumes "\<forall>x\<in>set xs. x = [] \<or> (\<not> P (hd x) \<and> \<not> P (last x))"
  shows "concat xs = [] \<or> (\<not> P (hd (concat xs)) \<and> \<not> P (last (concat xs)))"
  using assms
proof (induction xs)
  case Nil
  then show ?case by simp
next
  case (Cons x xs)
  then have IH: "concat xs = [] \<or> (\<not> P (hd (concat xs)) \<and> \<not> P (last (concat xs)))"
    and x: "x = [] \<or> (\<not> P (hd x) \<and> \<not> P (last x))" by auto
  show ?case
  proof (cases "x = []")
    case True
    with IH show ?thesis by simp
  next
    case False
    with x IH show ?thesis by (cases "concat xs = []") auto
  qed
qed

lemma get_text_strip_stripped: "py_strip (get_text_strip e) = get_text_strip e"
proof -
  have "\<forall>x\<in>set (map py_strip (strings e)).
          x = [] \<or> (\<not> py_isspace (hd x) \<and> \<not> py_isspace (last x))"
    using py_strip_ends by auto
  then have "concat (map py_strip (strings e)) = []
      \<or> (\<not> py_isspace (hd (concat (map py_strip (strings e))))
          \<and> \<not> py_isspace (last (concat (map py_strip (strings e)))))"
    by (rule concat_ends)
  then show ?thesis unfolding get_text_strip_def by (rule py_strip_fixed)
qed

text \<open>
  The extractor reads an element through \<^verbatim>\<open>find\<close>, \<^verbatim>\<open>find_all\<close>, attributes and
  stripped texts, none of which sees the whitespace around a text.
\<close>

lemma descendants_trimmed: "descendants (trimmed e) = map trimmed (descendants e)"
proof (induction e)
  case (Tag name attrs children)
  then show ?case by (simp add: map_concat comp_def cong: map_cong)
next
  case (Text s)
  then show ?case by simp
qed

lemma strings_trimmed: "strings (trimmed e) = map py_strip (strings e)"
proof (induction e)
  case (Tag name attrs children)
  then show ?case by (simp add: map_concat comp_def cong: map_cong)
next
  case (Text s)
  then show ?case by simp
qed


lemma get_text_strip_trimmed: "get_text_strip (trimmed e) = get_text_strip e"
  by (simp add: get_text_strip_def strings_trimmed comp_def py_strip_idem)

lemma tag_name_trimmed: "tag_name (trimmed e) = tag_name e"
  by (cases e) simp_all

lemma get_attr_trimmed: "get_attr (trimmed e) k = get_attr e k"
  by (cases e) simp_all

lemma has_class_trimmed: "has_class wanted (trimmed e) = has_class wanted e"
  by (simp add: has_class_def get_attr_trimmed)

lemma has_attr_trimmed: "has_attr k (trimmed e) = has_attr k e"
  by (simp add: has_attr_def get_attr_trimmed)

lemma find_all_trimmed:
  "(\<And>d. p (trimmed d) = p d) \<Longrightarrow> find_all (trimmed e) name p = map trimmed (find_all e name p)"
  by (simp add: find_all_def descendants_trimmed filter_map comp_def tag_name_trimmed)

lemma find_first_trimmed:
  "(\<And>d. p (trimmed d) = p d) \<Longrightarrow> find_first (trimmed e) name p = map_option trimmed (find_first e name p)"
  by (simp add: find_first_def find_all_trimmed split: list.splits)

lemma extract_title_trimmed: "extract_title (trimmed e) t = extract_title e t"
  by (simp add: extract_title_def find_first_trimmed has_class_trimmed has_attr_trimmed
        get_text_strip_trimmed get_attr_trimmed Let_def split: option.splits)

lemma extract_location_trimmed: "extract_location (map trimmed subs) t = extract_location subs t"
  by (simp add: extract_location_def find_first_trimmed has_class_trimmed
        get_text_strip_trimmed Let_def split: option.splits list.splits)

lemma extract_dates_trimmed: "extract_dates (map trimmed subs) t = extract_dates subs t"
  by (simp add: extract_dates_def find_all_trimmed has_attr_trimmed
        get_text_strip_trimmed get_attr_trimmed split: list.splits)


lemma registration_loop_keeps:
  "c_name (registration_loop lo links t) = c_name t
   \<and> c_start_date (registration_loop lo links t) = c_start_date t
   \<and> c_location (registration_loop lo links t) = c_location t"
  by (induction links) (simp_all add: Let_def)

lemma extract_title_fields:
  "c_name t = c_name t' \<and> c_start_date t = c_start_date t' \<and> c_location t = c_location t'
   \<Longrightarrow> c_name (extract_title e t) = c_name (extract_title e t')
     \<and> c_start_date (extract_title e t) = c_start_date (extract_title e t')
     \<and> c_location (extract_title e t) = c_location (extract_title e t')"
  by (simp add: extract_title_def Let_def split: option.splits)

lemma extract_location_fields:
  "c_name t = c_name t' \<and> c_start_date t = c_start_date t' \<and> c_location t = c_location t'
   \<Longrightarrow> c_name (extract_location subs t) = c_name (extract_location subs t')
     \<and> c_start_date (extract_location subs t) = c_start_date (extract_location subs t')
     \<and> c_location (extract_location subs t) = c_location (extract_location subs t')"
  by (simp add: extract_location_def Let_def split: option.splits list.splits)

lemma extract_dates_fields:
  "c_name t = c_name t' \<and> c_start_date t = c_start_date t' \<and> c_location t = c_location t'
   \<Longrightarrow> c_name (extract_dates subs t) = c_name (extract_dates subs t')
     \<and> c_start_date (extract_dates subs t) = c_start_date (extract_dates subs t')
     \<and> c_location (extract_dates subs t) = c_location (extract_dates subs t')"
  by (simp add: extract_dates_def split: list.splits)

lemma extract_fields_any_tab:
  "c_name (extract_tournament_details lo e i s ep n)
     = c_name (extract_tournament_details lo' e i' s' ep' n')
   \<and> c_start_date (extract_tournament_details lo e i s ep n)
     = c_start_date (extract_tournament_details lo' e i' s' ep' n')
   \<and> c_location (extract_tournament_details lo e i s ep n)
     = c_location (extract_tournament_details lo' e i' s' ep' n')"
proof -
  define subs where "subs = find_all e (S ''small'') (has_class [S ''media__subheading''])"
  have "c_name (new_candidate s i ep n) = c_name (new_candidate s' i' ep' n')
      \<and> c_start_date (new_candidate s i ep n) = c_start_date (new_candidate s' i' ep' n')
      \<and> c_location (new_candidate s i ep n) = c_location (new_candidate s' i' ep' n')"
    by (simp add: new_candidate_def)
  then have "c_name (extract_title e (new_candidate s i ep n))
        = c_name (extract_title e (new_candidate s' i' ep' n'))
      \<and> c_start_date (extract_title e (new_candidate s i ep n))
        = c_start_date (extract_title e (new_candidate s' i' ep' n'))
      \<and> c_location (extract_title e (new_candidate s i ep n))
        = c_location (extract_title e (new_candidate s' i' ep' n'))"
    by (rule extract_title_fields)
  then have "c_name (extract_location subs (extract_title e (new_candidate s i ep n)))
        = c_name (extract_location subs (extract_title e (new_candidate s' i' ep' n')))
      \<and> c_start_date (extract_location subs (extract_title e (new_candidate s i ep n)))
        = c_start_date (extract_location subs (extract_title e (new_candidate s' i' ep' n')))
      \<and> c_location (extract_location subs (extract_title e (new_candidate s i ep n)))
        = c_location (extract_location subs (extract_title e (new_candidate s' i' ep' n')))"
    by (rule extract_location_fields)
  then have "c_name (extract_dates subs (extract_location subs (extract_title e (new_candidate s i ep n))))
        = c_name (extract_dates subs (extract_location subs (extract_title e (new_candidate s' i' ep' n'))))
      \<and> c_start_date (extract_dates subs (extract_location subs (extract_title e (new_candidate s i ep n))))
        = c_start_date (extract_dates subs (extract_location subs (extract_title e (new_candidate s' i' ep' n'))))
      \<and> c_location (extract_dates subs (extract_location subs (extract_title e (new_candidate s i ep n))))
        = c_location (extract_dates subs (extract_location subs (extract_title e (new_candidate s' i' ep' n'))))"
    by (rule extract_dates_fields)
  then show ?thesis
    by (simp add: extract_tournament_details_def extract_registration_info_def Let_def
          with_hash_def registration_loop_keeps subs_def)
qed

lemma extract_fields_trimmed:
  "c_name (extract_tournament_details lo (trimmed e) i s ep n)
     = c_name (extract_tournament_details lo e i s ep n)
   \<and> c_start_date (extract_tournament_details lo (trimmed e) i s ep n)
     = c_start_date (extract_tournament_details lo e i s ep n)
   \<and> c_location (extract_tournament_details lo (trimmed e) i s ep n)
     = c_location (extract_tournament_details lo e i s ep n)"
  by (simp add: extract_tournament_details_def extract_registration_info_def Let_def
        with_hash_def registration_loop_keeps find_all_trimmed has_class_trimmed
        extract_title_trimmed extract_location_trimmed extract_dates_trimmed)

lemma hash_string_with_hash: "hash_string (with_hash t) = hash_string t"
  by (simp add: with_hash_def hash_string_def)

lemma extract_hash:
  "c_hash (extract_tournament_details lo element index source epoch now)
     = md5_hex (hash_string (extract_tournament_details lo element index source epoch now))"
  by (simp add: extract_tournament_details_def Let_def hash_string_with_hash)
     (simp add: with_hash_def)

text \<open>The name and the location of an extracted candidate are stripped texts.\<close>

lemma extract_title_stripped:
  "(\<forall>n. c_name t = Some n \<longrightarrow> py_strip n = n) \<and> (\<forall>l. c_location t = Some l \<longrightarrow> py_strip l = l)
   \<Longrightarrow> (\<forall>n. c_name (extract_title e t) = Some n \<longrightarrow> py_strip n = n)
     \<and> (\<forall>l. c_location (extract_title e t) = Some l \<longrightarrow> py_strip l = l)"
  by (auto simp: extract_title_def Let_def get_text_strip_stripped split: option.splits)

lemma extract_location_stripped:
  "(\<forall>n. c_name t = Some n \<longrightarrow> py_strip n = n) \<and> (\<forall>l. c_location t = Some l \<longrightarrow> py_strip l = l)
   \<Longrightarrow> (\<forall>n. c_name (extract_location subs t) = Some n \<longrightarrow> py_strip n = n)
     \<and> (\<forall>l. c_location (extract_location subs t) = Some l \<longrightarrow> py_strip l = l)"
  by (auto simp: extract_location_def Let_def get_text_strip_stripped py_strip_idem
        split: option.splits list.splits)

lemma extract_dates_stripped:
  "(\<forall>n. c_name t = Some n \<longrightarrow> py_strip n = n) \<and> (\<forall>l. c_location t = Some l \<longrightarrow> py_strip l = l)
   \<Longrightarrow> (\<forall>n. c_name (extract_dates subs t) = Some n \<longrightarrow> py_strip n = n)
     \<and> (\<forall>l. c_location (extract_dates subs t) = Some l \<longrightarrow> py_strip l = l)"
  by (auto simp: extract_dates_def split: list.splits)

lemma extract_stripped:
  "(\<forall>n. c_name (extract_tournament_details lo e i s ep now) = Some n \<longrightarrow> py_strip n = n)
   \<and> (\<forall>l. c_location (extract_tournament_details lo e i s ep now) = Some l \<longrightarrow> py_strip l = l)"
proof -
  define subs where "subs = find_all e (S ''small'') (has_class [S ''media__subheading''])"
  have "(\<forall>n. c_name (new_candidate s i ep now) = Some n \<longrightarrow> py_strip n = n)
      \<and> (\<forall>l. c_location (new_candidate s i ep now) = Some l \<longrightarrow> py_strip l = l)"
    by (simp add: new_candidate_def)
  then have "(\<forall>n. c_name (extract_title e (new_candidate s i ep now)) = Some n \<longrightarrow> py_strip n = n)
      \<and> (\<forall>l. c_location (extract_title e (new_candidate s i ep now)) = Some l \<longrightarrow> py_strip l = l)"
    by (rule extract_title_stripped)
  then have "(\<forall>n. c_name (extract_location subs (extract_title e (new_candidate s i ep now))) = Some n
                \<longrightarrow> py_strip n = n)
      \<and> (\<forall>l. c_location (extract_location subs (extract_title e (new_candidate s i ep now))) = Some l
                \<longrightarrow> py_strip l = l)"
    by (rule extract_location_stripped)
  then have "(\<forall>n. c_name (extract_dates subs (extract_location subs
                  (extract_title e (new_candidate s i ep now)))) = Some n \<longrightarrow> py_strip n = n)
      \<and> (\<forall>l. c_location (extract_dates subs (extract_location subs
                  (extract_title e (new_candidate s i ep now)))) = Some l \<longrightarrow> py_strip l = l)"
    by (rule extract_dates_stripped)
  then show ?thesis
    by (simp add: extract_tournament_details_def extract_registration_info_def Let_def
          with_hash_def registration_loop_keeps subs_def)
qed

text \<open>
  Claim C2, amended.  The fingerprint of an extracted candidate is the MD5 digest
  of its name, start date and location, joined as extracted; the name and the
  location are extracted without whitespace at their ends.  Two elements that
  differ only in the whitespace around their texts yield candidates with the same
  name, start date, location and fingerprint, and so do any two elements whose
  extracted name, start date and location agree, whatever tab, position and time
  they are extracted at.  (Letter case and the whitespace inside a name or a
  location are kept, as the counterexample shows.)
\<close>

theorem fingerprint_of_extracted_fields:
  "(trimmed e1 = trimmed e2 \<longrightarrow>
      c_name (extract_tournament_details lo e1 i1 s1 ep1 n1)
        = c_name (extract_tournament_details lo e2 i2 s2 ep2 n2)
    \<and> c_start_date (extract_tournament_details lo e1 i1 s1 ep1 n1)
        = c_start_date (extract_tournament_details lo e2 i2 s2 ep2 n2)
    \<and> c_location (extract_tournament_details lo e1 i1 s1 ep1 n1)
        = c_location (extract_tournament_details lo e2 i2 s2 ep2 n2)
    \<and> c_hash (extract_tournament_details lo e1 i1 s1 ep1 n1)
        = c_hash (extract_tournament_details lo e2 i2 s2 ep2 n2))
   \<and> (c_name (extract_tournament_details lo e1 i1 s1 ep1 n1)
        = c_name (extract_tournament_details lo e2 i2 s2 ep2 n2)
      \<and> c_start_date (extract_tournament_details lo e1 i1 s1 ep1 n1)
        = c_start_date (extract_tournament_details lo e2 i2 s2 ep2 n2)
      \<and> c_location (extract_tournament_details lo e1 i1 s1 ep1 n1)
        = c_location (extract_tournament_details lo e2 i2 s2 ep2 n2)
      \<longrightarrow> c_hash (extract_tournament_details lo e1 i1 s1 ep1 n1)
        = c_hash (extract_tournament_details lo e2 i2 s2 ep2 n2))
   \<and> c_hash (extract_tournament_details lo e1 i1 s1 ep1 n1)
       = md5_hex (get_str (c_name (extract_tournament_details lo e1 i1 s1 ep1 n1))
                  @ get_str (c_start_date (extract_tournament_details lo e1 i1 s1 ep1 n1))
                  @ get_str (c_location (extract_tournament_details lo e1 i1 s1 ep1 n1)))
   \<and> (\<forall>name. c_name (extract_tournament_details lo e1 i1 s1 ep1 n1) = Some name
          \<longrightarrow> py_strip name = name)
   \<and> (\<forall>location. c_location (extract_tournament_details lo e1 i1 s1 ep1 n1) = Some location
          \<longrightarrow> py_strip location = location)"
proof -
  have same: "c_hash (extract_tournament_details lo e1 i1 s1 ep1 n1)
        = c_hash (extract_tournament_details lo e2 i2 s2 ep2 n2)"
    if "c_name (extract_tournament_details lo e1 i1 s1 ep1 n1)
          = c_name (extract_tournament_details lo e2 i2 s2 ep2 n2)"
      "c_start_date (extract_tournament_details lo e1 i1 s1 ep1 n1)
          = c_start_date (extract_tournament_details lo e2 i2 s2 ep2 n2)"
      "c_location (extract_tournament_details lo e1 i1 s1 ep1 n1)
          = c_location (extract_tournament_details lo e2 i2 s2 ep2 n2)"
    using that by (simp add: extract_hash hash_string_def)
  have fields: "c_name (extract_tournament_details lo e1 i1 s1 ep1 n1)
        = c_name (extract_tournament_details lo e2 i2 s2 ep2 n2)
    \<and> c_start_date (extract_tournament_details lo e1 i1 s1 ep1 n1)
        = c_start_date (extract_tournament_details lo e2 i2 s2 ep2 n2)
    \<and> c_location (extract_tournament_details lo e1 i1 s1 ep1 n1)
        = c_location (extract_tournament_details lo e2 i2 s2 ep2 n2)"
    if eq: "trimmed e1 = trimmed e2"
  proof -
    note a = extract_fields_trimmed[of lo e1 i1 s1 ep1 n1, unfolded eq]
    note b = extract_fields_any_tab[of lo "trimmed e2" i1 s1 ep1 n1 lo i2 s2 ep2 n2]
    note c = extract_fields_trimmed[of lo e2 i2 s2 ep2 n2]
    from a b c show ?thesis by simp
  qed
  from same fields extract_stripped[of lo e1 i1 s1 ep1 n1] show ?thesis
    by (simp add: extract_hash hash_string_def)
qed


theorem fingerprint_of_extracted_fields_witness:
  "trimmed example_item = trimmed example_item_spaced
   \<and> example_item \<noteq> example_item_spaced
   \<and> c_name (extract_tournament_details ucd_sample example_item 0 (S ''upcoming'') 1793782800 example_now)
       = Some (S ''NK Tafeltennis'')
   \<and> c_name (extract_tournament_details ucd_sample example_item_spaced 4 (S ''recent'') 1793786400 example_now)
       = Some (S ''NK Tafeltennis'')
   \<and> c_hash (extract_tournament_details ucd_sample example_item 0 (S ''upcoming'') 1793782800 example_now)
       = S ''015227a060ea2593f9ab42fcd3ab0257''
   \<and> c_hash (extract_tournament_details ucd_sample example_item_spaced 4 (S ''recent'') 1793786400 example_now)
       = S ''015227a060ea2593f9ab42fcd3ab0257''
   \<and> c_hash (extract_tournament_details ucd_sample example_item_recent 3 (S ''recent'') 1793786400 example_now)
       = S ''015227a060ea2593f9ab42fcd3ab0257''
   \<and> c_location (extract_tournament_details ucd_sample example_item 0 (S ''upcoming'') 1793782800 example_now)
       = Some (S ''Rotterdam'')
   \<and> py_strip (S ''NK Tafeltennis'') = S ''NK Tafeltennis''
   \<and> py_strip (S ''Rotterdam'') = S ''Rotterdam''"
proof -
  have a: "trimmed example_item = trimmed example_item_spaced"
    by (simp add: example_item_def example_item_spaced_def py_strip_def py_isspace_def)
  have b: "example_item \<noteq> example_item_spaced"
    by (simp add: example_item_def example_item_spaced_def)
  have c: "extract_tournament_details ucd_sample example_item 0 (S ''upcoming'') 1793782800 example_now
      = example_candidate"
    by (rule example_extract)
  have d: "c_name (extract_tournament_details ucd_sample example_item 0 (S ''upcoming'') 1793782800 example_now)
      = c_name (extract_tournament_details ucd_sample example_item_recent 3 (S ''recent'') 1793786400 example_now)
    \<and> c_start_date (extract_tournament_details ucd_sample example_item 0 (S ''upcoming'') 1793782800 example_now)
      = c_start_date (extract_tournament_details ucd_sample example_item_recent 3 (S ''recent'') 1793786400 example_now)
    \<and> c_location (extract_tournament_details ucd_sample example_item 0 (S ''upcoming'') 1793782800 example_now)
      = c_location (extract_tournament_details ucd_sample example_item_recent 3 (S ''recent'') 1793786400 example_now)"
    by (simp add: c[simplified] example_extract_recent[simplified] example_candidate_def)
  note spaced = fingerprint_of_extracted_fields[of example_item example_item_spaced ucd_sample
      0 "S ''upcoming''" 1793782800 example_now 4 "S ''recent''" 1793786400 example_now]
  note recent = fingerprint_of_extracted_fields[of example_item example_item_recent ucd_sample
      0 "S ''upcoming''" 1793782800 example_now 3 "S ''recent''" 1793786400 example_now]
  have n1: "c_name (extract_tournament_details ucd_sample example_item 0 (S ''upcoming'') 1793782800 example_now)
       = Some (S ''NK Tafeltennis'')"
    by (simp add: c[simplified] example_candidate_def)
  have h1: "c_hash (extract_tournament_details ucd_sample example_item 0 (S ''upcoming'') 1793782800 example_now)
       = S ''015227a060ea2593f9ab42fcd3ab0257''"
    by (simp add: c[simplified] example_candidate_def)
  from spaced a
  have n2: "c_name (extract_tournament_details ucd_sample example_item 0 (S ''upcoming'') 1793782800 example_now)
       = c_name (extract_tournament_details ucd_sample example_item_spaced 4 (S ''recent'') 1793786400 example_now)"
    and h2: "c_hash (extract_tournament_details ucd_sample example_item 0 (S ''upcoming'') 1793782800 example_now)
       = c_hash (extract_tournament_details ucd_sample example_item_spaced 4 (S ''recent'') 1793786400 example_now)"
    by blast+
  from recent d
  have h3: "c_hash (extract_tournament_details ucd_sample example_item 0 (S ''upcoming'') 1793782800 example_now)
       = c_hash (extract_tournament_details ucd_sample example_item_recent 3 (S ''recent'') 1793786400 example_now)"
    by blast
  have l1: "c_location (extract_tournament_details ucd_sample example_item 0 (S ''upcoming'') 1793782800 example_now)
       = Some (S ''Rotterdam'')"
    by (simp add: c[simplified] example_candidate_def)
  from spaced n1 have s1: "py_strip (S ''NK Tafeltennis'') = S ''NK Tafeltennis''" by blast
  from spaced l1 have s2: "py_strip (S ''Rotterdam'') = S ''Rotterdam''" by blast
  show ?thesis
    using a b n1 h1 n2[symmetric] h2[symmetric] h3[symmetric] l1 s1 s2 by (simp only: simp_thms)
qed

section \<open>Properties of the deduplicator\<close>

lemma py_lower_ascii:
  assumes "list_all (\<lambda>c. c < 128) s"
  shows "py_lower lo s = map ascii_lower s"
proof -
  have "list_all (\<lambda>c. c < 128) (take (length s) s)" using assms by simp
  then have "take (length s) (lower_from lo [] s) = map ascii_lower (take (length s) s)"
    by (rule lower_from_ascii)
  moreover have "length (lower_from lo before s) = length s" if "list_all (\<lambda>c. c < 128) s" for before
    using that by (induction s arbitrary: before) simp_all
  ultimately show ?thesis using assms by (simp add: py_lower_def)
qed

lemma dedup_loop_firsts: "dedup_loop lo seen unique ts = unique @ firsts lo (dom seen) ts"
proof (induction ts arbitrary: seen unique)
  case Nil
  then show ?case by simp
next
  case (Cons t ts)
  show ?case
  proof (cases "truthy (c_name t) \<and> seen (dedup_key lo t) = None")
    case True
    then have out: "dedup_key lo t \<notin> dom seen" by auto
    have "dedup_loop lo seen unique (t # ts)
        = dedup_loop lo (seen(dedup_key lo t \<mapsto> t)) (unique @ [t]) ts"
      using True by simp
    also have "\<dots> = (unique @ [t]) @ firsts lo (dom (seen(dedup_key lo t \<mapsto> t))) ts"
      by (rule Cons.IH)
    also have "\<dots> = unique @ firsts lo (dom seen) (t # ts)"
      using True out by simp
    finally show ?thesis .
  next
    case False
    then have "\<not> truthy (c_name t) \<or> dedup_key lo t \<in> dom seen" by auto
    with False Cons.IH[of seen unique] show ?thesis by auto
  qed
qed

lemma firsts_keys:
  "set (map (dedup_key lo) (firsts lo K ts))
     = set (map (dedup_key lo) (filter (\<lambda>t. truthy (c_name t)) ts)) - K"
  by (induction ts arbitrary: K) auto

lemma firsts_distinct: "distinct (map (dedup_key lo) (firsts lo K ts))"
proof (induction ts arbitrary: K)
  case Nil
  then show ?case by simp
next
  case (Cons t ts)
  have "dedup_key lo t \<notin> set (map (dedup_key lo) (firsts lo (insert (dedup_key lo t) K) ts))"
    by (simp only: firsts_keys) simp
  with Cons.IH show ?case by simp
qed

lemma firsts_first_seen:
  "t \<in> set (firsts lo K ts)
   \<Longrightarrow> find (\<lambda>u. truthy (c_name u) \<and> dedup_key lo u = dedup_key lo t) ts = Some t"
proof (induction ts arbitrary: K)
  case Nil
  then show ?case by simp
next
  case (Cons x xs)
  show ?case
  proof (cases "\<not> truthy (c_name x) \<or> dedup_key lo x \<in> K")
    case True
    with Cons.prems have mem: "t \<in> set (firsts lo K xs)" by simp
    then have "dedup_key lo t \<in> set (map (dedup_key lo) (firsts lo K xs))" by simp
    then have "dedup_key lo t \<notin> K" by (simp only: firsts_keys) simp
    with True have "\<not> (truthy (c_name x) \<and> dedup_key lo x = dedup_key lo t)" by auto
    with Cons.IH[OF mem] show ?thesis by auto
  next
    case False
    with Cons.prems consider "t = x" | "t \<in> set (firsts lo (insert (dedup_key lo x) K) xs)" by auto
    then show ?thesis
    proof cases
      case 1
      with False show ?thesis by simp
    next
      case 2
      then have "dedup_key lo t \<in> set (map (dedup_key lo) (firsts lo (insert (dedup_key lo x) K) xs))" by simp
      then have "dedup_key lo t \<noteq> dedup_key lo x" by (simp only: firsts_keys) auto
      with Cons.IH[OF 2] show ?thesis by auto
    qed
  qed
qed


lemma parse_tournaments_named:
  "t \<in> set (parse_tournaments lo soup source epoch now) \<Longrightarrow> truthy (c_name t)"
  by (simp add: parse_tournaments_def)

text \<open>
  Claim C6, as stated, fails for the start date, which the key takes stripped but
  not lower-cased.  Two candidates from different tabs with the same name and
  location, whose start dates differ only in the letter case of the \<^verbatim>\<open>T\<close>, are
  both kept.
\<close>

theorem dedup_keeps_date_letter_case_counterexample:
  "truthy (c_name cand_timed) \<and> truthy (c_name cand_timed_recent)
   \<and> c_name cand_timed = c_name cand_timed_recent
   \<and> c_location cand_timed = c_location cand_timed_recent
   \<and> py_lower ucd_sample (py_strip (get_str (c_start_date cand_timed)))
       = py_lower ucd_sample (py_strip (get_str (c_start_date cand_timed_recent)))
   \<and> c_source cand_timed \<noteq> c_source cand_timed_recent
   \<and> remove_duplicate_tournaments ucd_sample [cand_timed, cand_timed_recent]
       = [cand_timed, cand_timed_recent]"
  by (simp add: remove_duplicate_tournaments_def truthy_def dedup_key_def cand_a_def
        cand_timed_def cand_timed_recent_def get_str_def py_strip_def py_isspace_def
        py_lower_def ascii_lower_def)

text \<open>
  Claim C6, amended.  The key of a candidate is its name, stripped and then
  lower-cased, its start date, stripped, and its location, stripped and then
  lower-cased (a missing field counts as the empty text; on ASCII text
  lower-casing maps \<^verbatim>\<open>A\<close> to \<^verbatim>\<open>Z\<close> to \<^verbatim>\<open>a\<close> to \<^verbatim>\<open>z\<close> and nothing else).
  \<^verbatim>\<open>_remove_duplicate_tournaments\<close> returns candidates with pairwise different
  keys, one for every key that occurs among the named candidates of its input
  (the candidates of a scrape pass are all named), and each returned candidate is
  the first named candidate of the input with its key.  Two named candidates that
  agree on the key, whatever their tab, collapse to the first; two with different
  keys are both kept.
\<close>

theorem dedup_one_record_per_key:
  "let key = (\<lambda>t. (py_lower lo (py_strip (get_str (c_name t))),
                    py_strip (get_str (c_start_date t)),
                    py_lower lo (py_strip (get_str (c_location t)))));
       named = (\<lambda>t. truthy (c_name t));
       kept = remove_duplicate_tournaments lo tournaments
   in distinct (map key kept)
    \<and> set (map key kept) = set (map key (filter named tournaments))
    \<and> (list_all named tournaments \<longrightarrow> set (map key kept) = set (map key tournaments))
    \<and> (\<forall>t \<in> set kept. find (\<lambda>u. named u \<and> key u = key t) tournaments = Some t)
    \<and> (named a \<and> key a = key b \<longrightarrow> remove_duplicate_tournaments lo [a, b] = [a])
    \<and> (named a \<and> named b \<and> key a \<noteq> key b
         \<longrightarrow> remove_duplicate_tournaments lo [a, b] = [a, b])
    \<and> (list_all (\<lambda>c. c < 128) s \<longrightarrow> py_lower lo s = map ascii_lower s)"
proof -
  have eq: "remove_duplicate_tournaments lo tournaments = firsts lo {} tournaments"
    by (simp add: remove_duplicate_tournaments_def dedup_loop_firsts)
  have one: "remove_duplicate_tournaments lo [a, b] = [a]"
    if "truthy (c_name a)" "dedup_key lo a = dedup_key lo b"
    using that by (simp add: remove_duplicate_tournaments_def)
  have two: "remove_duplicate_tournaments lo [a, b] = [a, b]"
    if "truthy (c_name a)" "truthy (c_name b)" "dedup_key lo a \<noteq> dedup_key lo b"
    using that by (auto simp: remove_duplicate_tournaments_def)
  have keys: "set (map (dedup_key lo) (remove_duplicate_tournaments lo tournaments))
        = set (map (dedup_key lo) (filter (\<lambda>t. truthy (c_name t)) tournaments))"
    using firsts_keys[of lo "{}" tournaments] by (simp add: eq)
  have all_named: "set (map (dedup_key lo) (remove_duplicate_tournaments lo tournaments))
        = set (map (dedup_key lo) tournaments)"
    if "list_all (\<lambda>t. truthy (c_name t)) tournaments"
  proof -
    from that have "filter (\<lambda>t. truthy (c_name t)) tournaments = tournaments"
      by (simp add: list_all_iff filter_id_conv)
    with keys show ?thesis by simp
  qed
  have "distinct (map (dedup_key lo) (remove_duplicate_tournaments lo tournaments))
    \<and> set (map (dedup_key lo) (remove_duplicate_tournaments lo tournaments))
        = set (map (dedup_key lo) (filter (\<lambda>t. truthy (c_name t)) tournaments))
    \<and> (list_all (\<lambda>t. truthy (c_name t)) tournaments
         \<longrightarrow> set (map (dedup_key lo) (remove_duplicate_tournaments lo tournaments))
               = set (map (dedup_key lo) tournaments))
    \<and> (\<forall>t \<in> set (remove_duplicate_tournaments lo tournaments).
          find (\<lambda>u. truthy (c_name u) \<and> dedup_key lo u = dedup_key lo t) tournaments = Some t)
    \<and> (truthy (c_name a) \<and> dedup_key lo a = dedup_key lo b
         \<longrightarrow> remove_duplicate_tournaments lo [a, b] = [a])
    \<and> (truthy (c_name a) \<and> truthy (c_name b) \<and> dedup_key lo a \<noteq> dedup_key lo b
         \<longrightarrow> remove_duplicate_tournaments lo [a, b] = [a, b])
    \<and> (list_all (\<lambda>c. c < 128) s \<longrightarrow> py_lower lo s = map ascii_lower s)"
    using firsts_distinct[of lo "{}" tournaments] keys all_named
      firsts_first_seen[of _ lo "{}" tournaments] one two py_lower_ascii[of s lo]
    unfolding eq by blast
  then show ?thesis
    unfolding Let_def dedup_key_def by blast
qed

theorem dedup_one_record_per_key_witness:
  "truthy (c_name cand_a) \<and> truthy (c_name cand_b)
   \<and> (py_lower ucd_sample (py_strip (get_str (c_name cand_a))),
       py_strip (get_str (c_start_date cand_a)),
       py_lower ucd_sample (py_strip (get_str (c_location cand_a))))
      = (S ''nk tafeltennis'', S ''2026-11-09'', S ''rotterdam'')
   \<and> (py_lower ucd_sample (py_strip (get_str (c_name cand_a_recent))),
       py_strip (get_str (c_start_date cand_a_recent)),
       py_lower ucd_sample (py_strip (get_str (c_location cand_a_recent))))
      = (S ''nk tafeltennis'', S ''2026-11-09'', S ''rotterdam'')
   \<and> (py_lower ucd_sample (py_strip (get_str (c_name cand_b))),
       py_strip (get_str (c_start_date cand_b)),
       py_lower ucd_sample (py_strip (get_str (c_location cand_b))))
      = (S ''open delft'', S ''2026-12-14'', S ''delft'')
   \<and> (py_lower ucd_sample (py_strip (get_str (c_name cand_cafe_recent))),
       py_strip (get_str (c_start_date cand_cafe_recent)),
       py_lower ucd_sample (py_strip (get_str (c_location cand_cafe_recent))))
      = (py_lower ucd_sample (py_strip (get_str (c_name cand_cafe))),
         py_strip (get_str (c_start_date cand_cafe)),
         py_lower ucd_sample (py_strip (get_str (c_location cand_cafe))))
   \<and> c_name cand_cafe_recent \<noteq> c_name cand_cafe
   \<and> c_start_date cand_cafe_recent \<noteq> c_start_date cand_cafe
   \<and> c_source cand_a \<noteq> c_source cand_a_recent
   \<and> remove_duplicate_tournaments ucd_sample [cand_a, cand_a_recent] = [cand_a]
   \<and> remove_duplicate_tournaments ucd_sample [cand_a, cand_b] = [cand_a, cand_b]
   \<and> remove_duplicate_tournaments ucd_sample
         [cand_a, cand_cafe, cand_a_recent, cand_b, cand_cafe_recent]
       = [cand_a, cand_cafe, cand_b]
   \<and> list_all (\<lambda>t. truthy (c_name t))
         [cand_a, cand_cafe, cand_a_recent, cand_b, cand_cafe_recent]
   \<and> list_all (\<lambda>c. c < 128) (S ''NK TAFELTENNIS'')
   \<and> py_lower ucd_sample (S ''NK TAFELTENNIS'') = S ''nk tafeltennis''"
proof -
  have nm: "list_all (\<lambda>t. truthy (c_name t))
         [cand_a, cand_cafe, cand_a_recent, cand_b, cand_cafe_recent]"
    by (simp add: truthy_def cand_a_def cand_b_def cand_cafe_def cand_a_recent_def
          cand_cafe_recent_def)
  have na: "truthy (c_name cand_a)" by (simp add: cand_a_def truthy_def)
  have nb: "truthy (c_name cand_b)" by (simp add: cand_a_def cand_b_def truthy_def)
  have ka: "(py_lower ucd_sample (py_strip (get_str (c_name cand_a))),
       py_strip (get_str (c_start_date cand_a)),
       py_lower ucd_sample (py_strip (get_str (c_location cand_a))))
      = (S ''nk tafeltennis'', S ''2026-11-09'', S ''rotterdam'')"
    by (simp add: cand_a_def get_str_def py_strip_def py_isspace_def py_lower_def ascii_lower_def)
  have kr: "(py_lower ucd_sample (py_strip (get_str (c_name cand_a_recent))),
       py_strip (get_str (c_start_date cand_a_recent)),
       py_lower ucd_sample (py_strip (get_str (c_location cand_a_recent))))
      = (S ''nk tafeltennis'', S ''2026-11-09'', S ''rotterdam'')"
    by (simp add: cand_a_def cand_a_recent_def get_str_def py_strip_def py_isspace_def py_lower_def
          ascii_lower_def)
  have kb: "(py_lower ucd_sample (py_strip (get_str (c_name cand_b))),
       py_strip (get_str (c_start_date cand_b)),
       py_lower ucd_sample (py_strip (get_str (c_location cand_b))))
      = (S ''open delft'', S ''2026-12-14'', S ''delft'')"
    by (simp add: cand_a_def cand_b_def get_str_def py_strip_def py_isspace_def py_lower_def
          ascii_lower_def)
  have kc: "(py_lower ucd_sample (py_strip (get_str (c_name cand_cafe_recent))),
       py_strip (get_str (c_start_date cand_cafe_recent)),
       py_lower ucd_sample (py_strip (get_str (c_location cand_cafe_recent))))
      = (py_lower ucd_sample (py_strip (get_str (c_name cand_cafe))),
         py_strip (get_str (c_start_date cand_cafe)),
         py_lower ucd_sample (py_strip (get_str (c_location cand_cafe))))"
    by (simp add: cand_a_def cand_cafe_def cand_cafe_recent_def get_str_def py_strip_def
          py_isspace_def py_lower_def ascii_lower_def ucd_sample_def)
  have dc: "c_name cand_cafe_recent \<noteq> c_name cand_cafe
      \<and> c_start_date cand_cafe_recent \<noteq> c_start_date cand_cafe"
    by (simp add: cand_a_def cand_cafe_def cand_cafe_recent_def)
  have src: "c_source cand_a \<noteq> c_source cand_a_recent"
    by (simp add: cand_a_def cand_a_recent_def)
  have asc: "list_all (\<lambda>c. c < 128) (S ''NK TAFELTENNIS'')" by simp
  have all: "remove_duplicate_tournaments ucd_sample
         [cand_a, cand_cafe, cand_a_recent, cand_b, cand_cafe_recent]
       = [cand_a, cand_cafe, cand_b]"
    by (simp add: remove_duplicate_tournaments_def truthy_def dedup_key_def cand_a_def cand_b_def
          cand_cafe_def cand_a_recent_def cand_cafe_recent_def get_str_def py_strip_def
          py_isspace_def py_lower_def ascii_lower_def ucd_sample_def)
  note pair = dedup_one_record_per_key[where lo = ucd_sample and a = cand_a and b = cand_a_recent
      and tournaments = "[cand_a, cand_cafe, cand_a_recent, cand_b, cand_cafe_recent]"
      and s = "S ''NK TAFELTENNIS''", unfolded Let_def]
  note both = dedup_one_record_per_key[where lo = ucd_sample and a = cand_a and b = cand_b
      and tournaments = "[cand_a, cand_b]" and s = "S ''NK TAFELTENNIS''", unfolded Let_def]
  from pair na ka kr
  have one: "remove_duplicate_tournaments ucd_sample [cand_a, cand_a_recent] = [cand_a]"
    by (simp only: simp_thms)
  from pair asc
  have low: "py_lower ucd_sample (S ''NK TAFELTENNIS'') = S ''nk tafeltennis''"
    by (simp add: ascii_lower_def)
  from both na nb ka kb
  have two: "remove_duplicate_tournaments ucd_sample [cand_a, cand_b] = [cand_a, cand_b]"
    by simp
  from na nb ka kr kb kc dc src one two all nm asc low show ?thesis by (simp only: simp_thms)
qed

section \<open>Properties of the retention sweep\<close>

text \<open>
  Claim C5 fails on the code at this input.  A row written on 21 October 2026 at
  23:00:00 carries \<^verbatim>\<open>scraped_at = '2026-10-21 23:00:00'\<close>.  A sweep on 4 November
  2026 at 00:30:00 compares it, as text, with \<^verbatim>\<open>'2026-10-21T00:30:00'\<close>: the
  space sorts before the \<^verbatim>\<open>T\<close>, and the row is retired although it was scraped
  after the cutoff, 13 days and 1.5 hours before the sweep, and has neither end
  nor start date.
\<close>

theorem cleanup_retires_row_inside_window:
  "add_days sweep_time (- 14) = Inr (scrape_time\<lparr> dt_hour := 0, dt_minute := 30 \<rparr>)
   \<and> dt_le (scrape_time\<lparr> dt_hour := 0, dt_minute := 30 \<rparr>) scrape_time
   \<and> scrape_time\<lparr> dt_hour := 0, dt_minute := 30 \<rparr> \<noteq> scrape_time
   \<and> r_scraped_at (insert_row (sqlite_timestamp scrape_time) cand_c (S ''Clubkampioenschap''))
       = Some (S ''2026-10-21 23:00:00'')
   \<and> r_end_date (insert_row (sqlite_timestamp scrape_time) cand_c (S ''Clubkampioenschap'')) = None
   \<and> r_start_date (insert_row (sqlite_timestamp scrape_time) cand_c (S ''Clubkampioenschap'')) = None
   \<and> cleanup_old_tournaments sweep_time 14
         [insert_row (sqlite_timestamp scrape_time) cand_c (S ''Clubkampioenschap'')]
       = Inr [(insert_row (sqlite_timestamp scrape_time) cand_c (S ''Clubkampioenschap''))
                \<lparr> r_is_active := Some False \<rparr>]"
  by (simp add: cleanup_old_tournaments_def is_old_def sql_lt_def scrape_time_def sweep_time_def
        insert_row_def cand_c_def cand_a_def date_eval format_eval dt_le_def dt_key_def)

text \<open>
  The four examples of the claim hold on rows scraped on the day of the sweep, with
  an end date, or a start date and no end date, ten days and three days back.
\<close>

lemma cleanup_retention_examples:
  "map_sum id (map r_is_active) (cleanup_old_tournaments example_now 14 retention_rows)
     = Inr [Some False, Some True, Some False, Some True]"
  by (simp add: cleanup_old_tournaments_def is_old_def sql_lt_def retention_rows_def
        example_now_def insert_row_def cand_b_def cand_a_def date_eval format_eval)


end
